theory Spec2Isabelle
  imports Complex_Main "HOL-Library.List_Lexorder" "HOL-Library.Char_ord"
begin

section \<open>Plutus: live FX synchronisation and charting, embedded in HOL\<close>

text \<open>
  The development follows the TypeScript sources: \<^verbatim>\<open>lib/fx\<close> (the provider client,
  the series normaliser and the date-window resolver), the time-series route, the
  dashboard's refresh loop and the chart's geometry. JavaScript built-ins the code calls
  (\<^verbatim>\<open>Date\<close>, \<^verbatim>\<open>Number\<close>, \<^verbatim>\<open>String.prototype.trim\<close>) are modelled after ECMA-262.
\<close>

subsection \<open>ECMAScript calendar arithmetic (ECMA-262, 21.4.1)\<close>

text \<open>
  A time value is a number of milliseconds since the epoch; \<open>Day\<close> and
  \<open>TimeWithinDay\<close> use floor division, as the standard does.
\<close>

definition msPerDay :: int where
  "msPerDay = 86400000"

definition Day :: "int \<Rightarrow> int" where
  "Day t = t div msPerDay"

definition TimeWithinDay :: "int \<Rightarrow> int" where
  "TimeWithinDay t = t mod msPerDay"

definition DaysInYear :: "int \<Rightarrow> int" where
  "DaysInYear y =
     (if y mod 4 \<noteq> 0 then 365
      else if y mod 100 \<noteq> 0 then 366
      else if y mod 400 \<noteq> 0 then 365
      else 366)"

definition DayFromYear :: "int \<Rightarrow> int" where
  "DayFromYear y =
     365 * (y - 1970) + (y - 1969) div 4 - (y - 1901) div 100 + (y - 1601) div 400"

text \<open>
  The standard defines the year of a day as the largest \<open>y\<close> with
  \<open>DayFromYear y \<le> day\<close>. The executable form estimates the year from the mean
  length of a Gregorian year and corrects the estimate by at most one;
  \<open>YearFromDay_spec\<close> below proves that it computes what the standard asks for.
\<close>

definition YearFromDay :: "int \<Rightarrow> int" where
  "YearFromDay d =
     (let y = 1970 + (400 * d) div 146097
      in if d < DayFromYear y then y - 1
         else if DayFromYear (y + 1) \<le> d then y + 1
         else y)"

definition YearFromTime :: "int \<Rightarrow> int" where
  "YearFromTime t = YearFromDay (Day t)"

definition InLeapYear :: "int \<Rightarrow> int" where
  "InLeapYear t = (if DaysInYear (YearFromTime t) = 366 then 1 else 0)"

definition DayWithinYear :: "int \<Rightarrow> int" where
  "DayWithinYear t = Day t - DayFromYear (YearFromTime t)"

text \<open>Months are numbered from 0 (January) to 11 (December), as in JavaScript.\<close>

definition MonthFromTime :: "int \<Rightarrow> int" where
  "MonthFromTime t =
     (let d = DayWithinYear t; l = InLeapYear t
      in if d < 31 then 0
         else if d < 59 + l then 1
         else if d < 90 + l then 2
         else if d < 120 + l then 3
         else if d < 151 + l then 4
         else if d < 181 + l then 5
         else if d < 212 + l then 6
         else if d < 243 + l then 7
         else if d < 273 + l then 8
         else if d < 304 + l then 9
         else if d < 334 + l then 10
         else 11)"

definition DateFromTime :: "int \<Rightarrow> int" where
  "DateFromTime t =
     (let d = DayWithinYear t; l = InLeapYear t; m = MonthFromTime t
      in if m = 0 then d + 1
         else if m = 1 then d - 30
         else if m = 2 then d - 58 - l
         else if m = 3 then d - 89 - l
         else if m = 4 then d - 119 - l
         else if m = 5 then d - 150 - l
         else if m = 6 then d - 180 - l
         else if m = 7 then d - 211 - l
         else if m = 8 then d - 242 - l
         else if m = 9 then d - 272 - l
         else if m = 10 then d - 303 - l
         else d - 333 - l)"

text \<open>
  \<open>MakeDay year month date\<close>: the month may lie outside 0..11 and the date outside the
  month; the standard carries the excess into the year and into the following days.
\<close>

definition monthStart :: "int \<Rightarrow> int \<Rightarrow> int" where
  "monthStart mn l =
     (if mn = 0 then 0
      else if mn = 1 then 31
      else if mn = 2 then 59 + l
      else if mn = 3 then 90 + l
      else if mn = 4 then 120 + l
      else if mn = 5 then 151 + l
      else if mn = 6 then 181 + l
      else if mn = 7 then 212 + l
      else if mn = 8 then 243 + l
      else if mn = 9 then 273 + l
      else if mn = 10 then 304 + l
      else 334 + l)"

definition MakeDay :: "int \<Rightarrow> int \<Rightarrow> int \<Rightarrow> int" where
  "MakeDay year month date =
     (let ym = year + month div 12;
          mn = month mod 12;
          l = (if DaysInYear ym = 366 then 1 else 0)
      in DayFromYear ym + monthStart mn l + date - 1)"

definition MakeDate :: "int \<Rightarrow> int \<Rightarrow> int" where
  "MakeDate day time = day * msPerDay + time"

text \<open>A \<^verbatim>\<open>Date\<close> holds a time value or \<^verbatim>\<open>NaN\<close> (an invalid date, \<open>None\<close>).\<close>

type_synonym Date = "int option"

definition maxTime :: int where
  "maxTime = 8640000000000000"

definition TimeClip :: "int \<Rightarrow> Date" where
  "TimeClip t = (if \<bar>t\<bar> > maxTime then None else Some t)"


definition DaysInMonth :: "int \<Rightarrow> int \<Rightarrow> int" where
  "DaysInMonth y mn =
     (if mn = 1 then (if DaysInYear y = 366 then 29 else 28)
      else if mn = 3 \<or> mn = 5 \<or> mn = 8 \<or> mn = 10 then 30
      else 31)"

subsection \<open>Strings\<close>

text \<open>
  Strings are modelled over ASCII: \<open>toUpperCase\<close> maps \<open>a\<close>..\<open>z\<close> to \<open>A\<close>..\<open>Z\<close> and
  leaves every other character alone, \<open>trim\<close> strips the ASCII white space and line
  terminators from both ends.
\<close>

definition toUpperChar :: "char \<Rightarrow> char" where
  "toUpperChar c =
     (case map_of (zip ''abcdefghijklmnopqrstuvwxyz'' ''ABCDEFGHIJKLMNOPQRSTUVWXYZ'') c of
        Some u \<Rightarrow> u
      | None \<Rightarrow> c)"

definition toUpperCase :: "string \<Rightarrow> string" where
  "toUpperCase s = map toUpperChar s"

definition isWhiteSpace :: "char \<Rightarrow> bool" where
  "isWhiteSpace c \<longleftrightarrow> c \<in> set [CHR '' '', CHR 0x09, CHR 0x0A, CHR 0x0B, CHR 0x0C, CHR 0x0D]"

definition trim :: "string \<Rightarrow> string" where
  "trim s = rev (dropWhile isWhiteSpace (rev (dropWhile isWhiteSpace s)))"

text \<open>Decimal digits of a natural number, most significant first.\<close>

fun digits :: "nat \<Rightarrow> string" where
  "digits n =
     (if n < 10 then [''0123456789'' ! n]
      else digits (n div 10) @ [''0123456789'' ! (n mod 10)])"

declare digits.simps [simp del]

definition pad2 :: "int \<Rightarrow> string" where
  "pad2 n = (if n < 10 then ''0'' @ digits (nat n) else digits (nat n))"

text \<open>
  \<^verbatim>\<open>year: "numeric"\<close> prints the year of the era: the proleptic year \<open>0\<close> is 1 BC and
  prints as \<open>1\<close>.
\<close>

definition yearString :: "int \<Rightarrow> string" where
  "yearString y = (if 0 < y then digits (nat y) else digits (nat (1 - y)))"

subsection \<open>Thrown values\<close>

text \<open>
  Thrown values: the \<^verbatim>\<open>Error\<close> subclasses with their message, a \<^verbatim>\<open>DOMException\<close> with
  its name and message, and a thrown value that is no \<^verbatim>\<open>Error\<close> at all.
\<close>

datatype jsError =
    RangeError string
  | TypeError string
  | SyntaxError string
  | Error string
  | DOMException string string
  | NonError

subsection \<open>The \<^verbatim>\<open>Date\<close> methods the resolver calls\<close>

text \<open>
  The local-time methods of \<^verbatim>\<open>Date\<close> read the host's time zone. The host zone is the
  parameter \<open>tz\<close>: its offset from UTC in milliseconds, taken as constant over the
  instants involved (UTC, Asia/Singapore and every zone without daylight-saving
  transitions are of this kind). A number that may be \<^verbatim>\<open>NaN\<close> is an \<open>int option\<close>.
\<close>

definition LocalTime :: "int \<Rightarrow> int \<Rightarrow> int" where
  "LocalTime tz t = t + tz"

definition UTC :: "int \<Rightarrow> int \<Rightarrow> int" where
  "UTC tz t = t - tz"

definition getDate :: "int \<Rightarrow> Date \<Rightarrow> int option" where
  "getDate tz d = map_option (\<lambda>t. DateFromTime (LocalTime tz t)) d"

definition getMonth :: "int \<Rightarrow> Date \<Rightarrow> int option" where
  "getMonth tz d = map_option (\<lambda>t. MonthFromTime (LocalTime tz t)) d"

definition getFullYear :: "int \<Rightarrow> Date \<Rightarrow> int option" where
  "getFullYear tz d = map_option (\<lambda>t. YearFromTime (LocalTime tz t)) d"

definition setDate :: "int \<Rightarrow> Date \<Rightarrow> int option \<Rightarrow> Date" where
  "setDate tz d dt =
     (case d of
        None \<Rightarrow> None
      | Some t0 \<Rightarrow>
          (case dt of
             None \<Rightarrow> None
           | Some n \<Rightarrow>
               (let t = LocalTime tz t0
                in TimeClip (UTC tz (MakeDate (MakeDay (YearFromTime t) (MonthFromTime t) n)
                                              (TimeWithinDay t))))))"

definition setMonth :: "int \<Rightarrow> Date \<Rightarrow> int option \<Rightarrow> Date" where
  "setMonth tz d m =
     (case d of
        None \<Rightarrow> None
      | Some t0 \<Rightarrow>
          (case m of
             None \<Rightarrow> None
           | Some n \<Rightarrow>
               (let t = LocalTime tz t0
                in TimeClip (UTC tz (MakeDate (MakeDay (YearFromTime t) n (DateFromTime t))
                                              (TimeWithinDay t))))))"

definition setFullYear :: "int \<Rightarrow> Date \<Rightarrow> int option \<Rightarrow> Date" where
  "setFullYear tz d y =
     (case y of
        None \<Rightarrow> None
      | Some n \<Rightarrow>
          (let t = (case d of None \<Rightarrow> 0 | Some t0 \<Rightarrow> LocalTime tz t0)
           in TimeClip (UTC tz (MakeDate (MakeDay n (MonthFromTime t) (DateFromTime t))
                                         (TimeWithinDay t)))))"

text \<open>\<open>numMinus k x\<close> is the JavaScript \<^verbatim>\<open>x - k\<close> on a number that may be \<^verbatim>\<open>NaN\<close>.\<close>

definition numMinus :: "int \<Rightarrow> int option \<Rightarrow> int option" where
  "numMinus k x = map_option (\<lambda>v. v - k) x"

subsection \<open>The date-window resolver (\<^verbatim>\<open>lib/fx\<close>)\<close>

text \<open>
  Asia/Singapore has been at UTC+8 without daylight saving since 1982-01-01; the
  formatter is modelled with that offset, so the model is the code for instants from
  then on (\<open>sgtSince\<close>, 1981-12-31T16:00:00Z).
\<close>

definition sgtOffset :: int where
  "sgtOffset = 28800000"

definition sgtSince :: int where
  "sgtSince = 378662400000"

text \<open>
  \<^verbatim>\<open>Intl.DateTimeFormat("en-CA", {timeZone: "Asia/Singapore", ...}).formatToParts\<close>
  raises a \<^verbatim>\<open>RangeError\<close> on an invalid date; on a valid one the three parts are never
  empty, so the fallback branch of the source is not taken.
\<close>

definition toISODateSGT :: "Date \<Rightarrow> jsError + string" where
  "toISODateSGT date =
     (case date of
        None \<Rightarrow> Inl (RangeError ''Invalid time value'')
      | Some t \<Rightarrow>
          (let l = t + sgtOffset;
               y = yearString (YearFromTime l);
               m = pad2 (MonthFromTime l + 1);
               d = pad2 (DateFromTime l)
           in Inr (y @ ''-'' @ m @ ''-'' @ d)))"

record RangeDates =
  fromDate :: string
  toDate :: string

definition shiftBack :: "int \<Rightarrow> string \<Rightarrow> Date \<Rightarrow> Date" where
  "shiftBack tz normalized d =
     (if normalized = ''1D'' then setDate tz d (numMinus 1 (getDate tz d))
      else if normalized = ''1W'' then setDate tz d (numMinus 7 (getDate tz d))
      else if normalized = ''1M'' then setMonth tz d (numMinus 1 (getMonth tz d))
      else if normalized = ''3M'' then setMonth tz d (numMinus 3 (getMonth tz d))
      else if normalized = ''6M'' then setMonth tz d (numMinus 6 (getMonth tz d))
      else if normalized = ''1Y'' then setFullYear tz d (numMinus 1 (getFullYear tz d))
      else setMonth tz d (numMinus 1 (getMonth tz d)))"

definition computeRangeDates :: "int \<Rightarrow> string \<Rightarrow> Date \<Rightarrow> jsError + RangeDates" where
  "computeRangeDates tz rng now =
     (let normalized = toUpperCase rng
      in case toISODateSGT now of
           Inl e \<Rightarrow> Inl e
         | Inr toStr \<Rightarrow>
             (let d = shiftBack tz normalized now
              in case toISODateSGT d of
                   Inl e \<Rightarrow> Inl e
                 | Inr fromStr \<Rightarrow> Inr \<lparr>fromDate = fromStr, toDate = toStr\<rparr>))"


subsection \<open>JavaScript numbers and values\<close>

text \<open>
  A number is finite, an infinity or \<^verbatim>\<open>NaN\<close>. Finite numbers are modelled as reals:
  the code below only compares, clamps and scales them, and the model leaves the
  rounding of double precision out.
\<close>

datatype jsnum = Fin real | PosInf | NegInf | NaN

definition Number_isFinite :: "jsnum \<Rightarrow> bool" where
  "Number_isFinite x = (case x of Fin r \<Rightarrow> True | _ \<Rightarrow> False)"

text \<open>\<open>gtZero x\<close> is the comparison \<^verbatim>\<open>x > 0\<close>, false on \<^verbatim>\<open>NaN\<close>.\<close>

definition gtZero :: "jsnum \<Rightarrow> bool" where
  "gtZero x = (case x of Fin r \<Rightarrow> 0 < r | PosInf \<Rightarrow> True | _ \<Rightarrow> False)"

datatype jsval =
    JNumber jsnum
  | JString string
  | JBoolean bool
  | JNull
  | JUndefined
  | JArray "jsval list"
  | JObject "(string \<times> jsval) list"

text \<open>
  \<^verbatim>\<open>Number(raw)\<close> needs the standard's \<^verbatim>\<open>StringToNumber\<close> and, for arrays and objects,
  the string \<^verbatim>\<open>ToPrimitive\<close> yields; both are parameters of the model.
\<close>

record jsRuntime =
  stringToNumber :: "string \<Rightarrow> jsnum"
  primitiveString :: "jsval \<Rightarrow> string"

definition Number :: "jsRuntime \<Rightarrow> jsval \<Rightarrow> jsnum" where
  "Number rt raw =
     (case raw of
        JNumber x \<Rightarrow> x
      | JString str \<Rightarrow> stringToNumber rt str
      | JBoolean b \<Rightarrow> (if b then Fin 1 else Fin 0)
      | JNull \<Rightarrow> Fin 0
      | JUndefined \<Rightarrow> NaN
      | JArray xs \<Rightarrow> stringToNumber rt (primitiveString rt raw)
      | JObject kvs \<Rightarrow> stringToNumber rt (primitiveString rt raw))"

text \<open>
  \<open>getProp obj key\<close> is \<^verbatim>\<open>obj?.[key]\<close> for a key that \<open>toUpperCase\<close> returned: such a
  key names no inherited property, so only own properties count: the entries of an object,
  the elements of an array and the characters of a string under their index.
\<close>

definition indexOfKey :: "string \<Rightarrow> nat \<Rightarrow> nat option" where
  "indexOfKey key n = find (\<lambda>i. digits i = key) [0..<n]"

definition getProp :: "jsval \<Rightarrow> string \<Rightarrow> jsval" where
  "getProp obj key =
     (case obj of
        JObject kvs \<Rightarrow> (case map_of kvs key of Some x \<Rightarrow> x | None \<Rightarrow> JUndefined)
      | JArray xs \<Rightarrow>
          (case indexOfKey key (length xs) of Some i \<Rightarrow> xs ! i | None \<Rightarrow> JUndefined)
      | JString str \<Rightarrow>
          (case indexOfKey key (length str) of Some i \<Rightarrow> JString [str ! i] | None \<Rightarrow> JUndefined)
      | _ \<Rightarrow> JUndefined)"

subsection \<open>The provider client (\<^verbatim>\<open>lib/fx\<close>)\<close>

text \<open>
  What \<^verbatim>\<open>await fetch(...)\<close> and the reads of the response come to is an input of the
  model: the promise is rejected with an error, or it resolves with a response whose
  body parses (\<open>Inr\<close>) or does not (\<open>Inl\<close>).
\<close>

record 'a response =
  ok :: bool
  status :: nat
  statusText :: string
  bodyText :: string
  json :: "jsError + 'a"

datatype 'a fetched = Rejected jsError | Resolved "'a response"

text \<open>The provider's bodies, with the fields the code guards against left optional.\<close>

record FrankfurterLatestResponse =
  fl_base :: "string option"
  fl_date :: "string option"
  fl_rates :: "(string \<times> jsval) list option"

record FrankfurterTimeSeriesResponse =
  ft_base :: "string option"
  ft_start_date :: "string option"
  ft_end_date :: "string option"
  ft_rates :: "(string \<times> jsval) list option"

record LatestRates =
  base :: string
  asOf :: string
  providerDate :: "string option"
  symbols :: "string list"
  rates :: "(string \<times> jsval) list"

record TimeSeriesPoint =
  point_t :: string
  point_v :: jsnum

record TimeSeries =
  ts_base :: string
  ts_symbol :: string
  ts_asOf :: string
  ts_range :: "string option"
  ts_from :: string
  ts_to :: string
  ts_points :: "TimeSeriesPoint list"

text \<open>\<open>orElse x d\<close> is \<^verbatim>\<open>x || d\<close> on an optional string: a missing or empty \<open>x\<close> gives \<open>d\<close>.\<close>

definition orElse :: "string option \<Rightarrow> string \<Rightarrow> string" where
  "orElse x d = (case x of None \<Rightarrow> d | Some str \<Rightarrow> (if str = [] then d else str))"

definition assertOk :: "'a response \<Rightarrow> jsError option" where
  "assertOk res =
     (if \<not> ok res
      then Some (Error (''FX provider error: '' @ digits (status res) @ '' '' @ statusText res))
      else None)"

text \<open>
  \<^verbatim>\<open>Object.fromEntries\<close>: the entries are assigned in turn, so a key that comes again
  keeps its place and takes the later value.
\<close>

fun assign :: "string \<Rightarrow> 'a \<Rightarrow> (string \<times> 'a) list \<Rightarrow> (string \<times> 'a) list" where
  "assign k x [] = [(k, x)]"
| "assign k x ((k', y) # kvs) = (if k = k' then (k, x) # kvs else (k', y) # assign k x kvs)"

definition fromEntries :: "(string \<times> 'a) list \<Rightarrow> (string \<times> 'a) list" where
  "fromEntries kvs = foldl (\<lambda>obj (k, x). assign k x obj) [] kvs"

text \<open>
  The requested symbols as the snapshot lists them (and as \<^verbatim>\<open>toQueryParam\<close> sends them):
  \<^verbatim>\<open>symbols.map((s) => s.trim().toUpperCase()).filter(Boolean)\<close>.
\<close>

definition normalizeSymbols :: "string list \<Rightarrow> string list" where
  "normalizeSymbols syms = filter (\<lambda>c. c \<noteq> []) (map (\<lambda>c. toUpperCase (trim c)) syms)"

text \<open>
  \<open>clock\<close> stands for \<^verbatim>\<open>new Date().toISOString()\<close> at the time the response is
  normalised.
\<close>

definition fetchLatestRates ::
  "string \<Rightarrow> string list \<Rightarrow> string \<Rightarrow> FrankfurterLatestResponse fetched \<Rightarrow> jsError + LatestRates"
where
  "fetchLatestRates base0 syms clock fetched =
     (case fetched of
        Rejected e \<Rightarrow> Inl e
      | Resolved res \<Rightarrow>
          (case assertOk res of
             Some e \<Rightarrow> Inl e
           | None \<Rightarrow>
               (case json res of
                  Inl e \<Rightarrow> Inl e
                | Inr data \<Rightarrow>
                    Inr \<lparr>base = toUpperCase (orElse (fl_base data) base0),
                         asOf = clock,
                         providerDate = fl_date data,
                         symbols = normalizeSymbols syms,
                         rates = fromEntries (map (\<lambda>(k, x). (toUpperCase k, x))
                                   (case fl_rates data of None \<Rightarrow> [] | Some kvs \<Rightarrow> kvs))\<rparr>)))"

text \<open>
  The points of a series: one candidate per entry of the raw per-date mapping, the
  value coerced, then the filter and the (stable) sort by date string.
\<close>

definition toPoint :: "jsRuntime \<Rightarrow> string \<Rightarrow> string \<times> jsval \<Rightarrow> TimeSeriesPoint" where
  "toPoint rt upperSymbol entry =
     (case entry of (date, rateMap) \<Rightarrow>
        (let raw = getProp rateMap upperSymbol;
             x = (case raw of JNumber y \<Rightarrow> y | _ \<Rightarrow> Number rt raw)
         in \<lparr>point_t = date, point_v = x\<rparr>))"

definition keepPoint :: "TimeSeriesPoint \<Rightarrow> bool" where
  "keepPoint p \<longleftrightarrow> Number_isFinite (point_v p) \<and> gtZero (point_v p)"

definition seriesPoints :: "jsRuntime \<Rightarrow> string \<Rightarrow> (string \<times> jsval) list \<Rightarrow> TimeSeriesPoint list" where
  "seriesPoints rt upperSymbol entries =
     sort_key point_t (filter keepPoint (map (toPoint rt upperSymbol) entries))"

record SeriesParams =
  sp_base :: string
  sp_symbol :: string
  sp_from :: string
  sp_to :: string
  sp_range :: "string option"

definition fetchTimeSeries ::
  "jsRuntime \<Rightarrow> SeriesParams \<Rightarrow> string \<Rightarrow> FrankfurterTimeSeriesResponse fetched \<Rightarrow> jsError + TimeSeries"
where
  "fetchTimeSeries rt params clock fetched =
     (case fetched of
        Rejected e \<Rightarrow> Inl e
      | Resolved res \<Rightarrow>
          (case assertOk res of
             Some e \<Rightarrow> Inl e
           | None \<Rightarrow>
               (case json res of
                  Inl e \<Rightarrow> Inl e
                | Inr data \<Rightarrow>
                    (let upperSymbol = toUpperCase (sp_symbol params)
                     in Inr \<lparr>ts_base = toUpperCase (orElse (ft_base data) (sp_base params)),
                             ts_symbol = upperSymbol,
                             ts_asOf = clock,
                             ts_range = sp_range params,
                             ts_from = sp_from params,
                             ts_to = sp_to params,
                             ts_points = seriesPoints rt upperSymbol
                               (case ft_rates data of None \<Rightarrow> [] | Some kvs \<Rightarrow> kvs)\<rparr>))))"

subsection \<open>The time-series route (\<^verbatim>\<open>GET /api/fx/timeseries\<close>)\<close>

text \<open>
  \<open>errMessage\<close> is \<^verbatim>\<open>err instanceof Error ? err.message : "Unknown error"\<close>; a
  \<^verbatim>\<open>DOMException\<close> is an \<^verbatim>\<open>Error\<close> too.
\<close>

definition errMessage :: "jsError \<Rightarrow> string" where
  "errMessage err =
     (case err of
        RangeError m \<Rightarrow> m
      | TypeError m \<Rightarrow> m
      | SyntaxError m \<Rightarrow> m
      | Error m \<Rightarrow> m
      | DOMException n m \<Rightarrow> m
      | NonError \<Rightarrow> ''Unknown error'')"

text \<open>
  The query: what \<^verbatim>\<open>searchParams.get\<close> returns for \<^verbatim>\<open>symbol\<close> and \<^verbatim>\<open>range\<close>
  (\<open>None\<close> for an absent parameter).
\<close>

record Query =
  q_symbol :: "string option"
  q_range :: "string option"

text \<open>
  What the route needs from its surroundings: the host's zone, \<^verbatim>\<open>new Date()\<close> when the
  window is resolved, \<^verbatim>\<open>new Date().toISOString()\<close> when the series is normalised, the
  coercions of the runtime and what the provider answers.
\<close>

record RouteEnv =
  hostTz :: int
  today :: Date
  stamp :: string
  runtime :: jsRuntime
  upstream :: "FrankfurterTimeSeriesResponse fetched"

datatype RouteResponse = JsonError nat string | JsonOk TimeSeries

definition allowedRanges :: "string list" where
  "allowedRanges = [''1D'', ''1W'', ''1M'', ''3M'', ''6M'', ''1Y'']"

definition GET :: "RouteEnv \<Rightarrow> Query \<Rightarrow> RouteResponse" where
  "GET env q =
     (let symbolParam = toUpperCase (trim (orElse (q_symbol q) []));
          rangeParam = toUpperCase (trim (orElse (q_range q) ''1M''))
      in if symbolParam = [] then JsonError 400 ''Missing required query param: symbol''
         else if length symbolParam < 3 \<or> length symbolParam > 5
           then JsonError 400 ''Invalid symbol''
         else
           (let rng = (if rangeParam \<in> set allowedRanges then rangeParam else ''1M'')
            in if orElse (q_range q) [] \<noteq> [] \<and> rangeParam \<noteq> rng
                 then JsonError 400 ''Invalid range''
               else
                 (case computeRangeDates (hostTz env) rng (today env) of
                    Inl e \<Rightarrow> JsonError 500 (errMessage e)
                  | Inr w \<Rightarrow>
                      (case fetchTimeSeries (runtime env)
                              \<lparr>sp_base = ''SGD'', sp_symbol = symbolParam,
                               sp_from = fromDate w, sp_to = toDate w, sp_range = Some rng\<rparr>
                              (stamp env) (upstream env) of
                         Inl e \<Rightarrow> JsonError 500 (errMessage e)
                       | Inr data \<Rightarrow> JsonOk data))))"

subsection \<open>The dashboard's refresh loop (\<^verbatim>\<open>FxDashboard\<close>)\<close>

text \<open>
  The component's state, with the \<^verbatim>\<open>AbortController\<close>s it has created: controller \<open>c\<close>
  is the \<open>c\<close>-th element of \<open>controllers\<close>, which holds whether its signal has been
  aborted; \<open>abortRef\<close> is the controller \<^verbatim>\<open>abortRef.current\<close> points to.
\<close>

record Dashboard =
  watchlist :: "string list"
  refreshSeconds :: int
  autoRefresh :: bool
  latest :: "LatestRates option"
  isLoading :: bool
  errorMessage :: "string option"
  abortRef :: "nat option"
  controllers :: "bool list"

definition initialDashboard :: Dashboard where
  "initialDashboard =
     \<lparr>watchlist = [], refreshSeconds = 30, autoRefresh = True, latest = None,
      isLoading = False, errorMessage = None, abortRef = None, controllers = []\<rparr>"

fun joinComma :: "string list \<Rightarrow> string" where
  "joinComma [] = []"
| "joinComma [x] = x"
| "joinComma (x # y # ys) = x @ '','' @ joinComma (y # ys)"

definition symbolsParam :: "Dashboard \<Rightarrow> string" where
  "symbolsParam s = joinComma (watchlist s)"

definition abort :: "nat option \<Rightarrow> bool list \<Rightarrow> bool list" where
  "abort r cs = (case r of None \<Rightarrow> cs | Some c \<Rightarrow> cs[c := True])"

text \<open>
  \<open>loadLatest\<close> up to its first \<^verbatim>\<open>await\<close>: nothing happens without symbols; otherwise
  the controller in flight is aborted, a new one takes its place, the loading flag is set
  and the error is cleared. The result names the controller of the fetch that was started.
\<close>

definition loadLatest_start :: "Dashboard \<Rightarrow> Dashboard \<times> nat option" where
  "loadLatest_start s =
     (if symbolsParam s = [] then (s, None)
      else
        (let cs = abort (abortRef s) (controllers s);
             c = length cs
         in (s\<lparr>controllers := cs @ [False], abortRef := Some c,
                isLoading := True, errorMessage := None\<rparr>, Some c)))"

definition isAbortError :: "jsError \<Rightarrow> bool" where
  "isAbortError err = (case err of DOMException n m \<Rightarrow> n = ''AbortError'' | _ \<Rightarrow> False)"

text \<open>
  What the \<^verbatim>\<open>try\<close> block comes to once the fetch settles with its signal not aborted
  (\<open>settled\<close>): a rejected fetch throws, a response that is not \<^verbatim>\<open>ok\<close> is turned into an
  \<^verbatim>\<open>Error\<close> (\<open>bodyText\<close> is what \<^verbatim>\<open>res.text()\<close> gives, the empty string when it
  fails), and otherwise the body is read. A fetch whose signal has been aborted rejects
  with an \<^verbatim>\<open>AbortError\<close>, whatever the network did (\<open>tryFetch\<close>).
\<close>

definition abortError :: jsError where
  "abortError = DOMException ''AbortError'' ''The operation was aborted.''"

definition settled :: "LatestRates fetched \<Rightarrow> jsError + LatestRates" where
  "settled fetched =
     (case fetched of
        Rejected e \<Rightarrow> Inl e
      | Resolved res \<Rightarrow>
          (if \<not> ok res
           then Inl (Error (''Failed to load latest rates ('' @ digits (status res) @ ''): ''
                             @ orElse (Some (bodyText res)) (statusText res)))
           else json res))"

definition tryFetch :: "Dashboard \<Rightarrow> nat \<Rightarrow> LatestRates fetched \<Rightarrow> jsError + LatestRates" where
  "tryFetch s c fetched =
     (if c < length (controllers s) \<and> controllers s ! c then Inl abortError
      else settled fetched)"

text \<open>
  The rest of \<open>loadLatest\<close>, run when the fetch of controller \<open>c\<close> settles: the
  \<^verbatim>\<open>try\<close> block's outcome, the \<^verbatim>\<open>catch\<close> clause and the \<^verbatim>\<open>finally\<close> clause, which
  runs on every path, the early \<^verbatim>\<open>return\<close> of the \<^verbatim>\<open>catch\<close> clause included.
\<close>

definition loadLatest_settle :: "Dashboard \<Rightarrow> nat \<Rightarrow> LatestRates fetched \<Rightarrow> Dashboard" where
  "loadLatest_settle s c fetched =
     (let s1 =
        (case tryFetch s c fetched of
           Inr data \<Rightarrow> s\<lparr>latest := Some data\<rparr>
         | Inl err \<Rightarrow>
             (if isAbortError err then s
              else s\<lparr>errorMessage := Some (errMessage err)\<rparr>))
      in s1\<lparr>isLoading := False\<rparr>)"

text \<open>A refresh from start to end, when no other refresh begins in between.\<close>

definition refresh :: "Dashboard \<Rightarrow> LatestRates fetched \<Rightarrow> Dashboard" where
  "refresh s fetched =
     (case loadLatest_start s of
        (s1, None) \<Rightarrow> s1
      | (s1, Some c) \<Rightarrow> loadLatest_settle s1 c fetched)"

text \<open>A string is truthy when it is there and not empty.\<close>

definition truthy :: "string option \<Rightarrow> bool" where
  "truthy x = (case x of None \<Rightarrow> False | Some str \<Rightarrow> str \<noteq> [])"

datatype Status = idle | loading | loaded | error

definition status_of :: "Dashboard \<Rightarrow> Status" where
  "status_of s =
     (if isLoading s \<and> latest s = None then loading
      else if truthy (errorMessage s) \<and> latest s = None then error
      else if latest s \<noteq> None then loaded
      else idle)"

text \<open>The state the header shows: \<^verbatim>\<open>DEGRADED\<close>, \<^verbatim>\<open>SYNCING\<close> or \<^verbatim>\<open>LIVE\<close>.\<close>

datatype Badge = DEGRADED | SYNCING | LIVE

definition badge :: "Dashboard \<Rightarrow> Badge" where
  "badge s =
     (if truthy (errorMessage s) then DEGRADED
      else if isLoading s then SYNCING
      else LIVE)"

subsection \<open>The chart's geometry (\<^verbatim>\<open>TimeSeriesChart\<close>)\<close>

text \<open>
  Arithmetic on numbers that may be infinite or \<^verbatim>\<open>NaN\<close>, as far as the hover code needs
  it. \<open>jsDivide a b\<close> is \<^verbatim>\<open>a / b\<close> for finite operands, where a zero divisor is the
  positive zero (the width or height of a bounding rectangle).
\<close>

definition jsDivide :: "real \<Rightarrow> real \<Rightarrow> jsnum" where
  "jsDivide a b =
     (if b \<noteq> 0 then Fin (a / b)
      else if 0 < a then PosInf
      else if a < 0 then NegInf
      else NaN)"

definition jsTimes :: "jsnum \<Rightarrow> real \<Rightarrow> jsnum" where
  "jsTimes x k =
     (case x of
        Fin a \<Rightarrow> Fin (a * k)
      | PosInf \<Rightarrow> (if 0 < k then PosInf else if k < 0 then NegInf else NaN)
      | NegInf \<Rightarrow> (if 0 < k then NegInf else if k < 0 then PosInf else NaN)
      | NaN \<Rightarrow> NaN)"

definition jsMax :: "jsnum \<Rightarrow> real \<Rightarrow> jsnum" where
  "jsMax x k =
     (case x of
        Fin a \<Rightarrow> Fin (max a k)
      | PosInf \<Rightarrow> PosInf
      | NegInf \<Rightarrow> Fin k
      | NaN \<Rightarrow> NaN)"

definition jsMin :: "jsnum \<Rightarrow> real \<Rightarrow> jsnum" where
  "jsMin x k =
     (case x of
        Fin a \<Rightarrow> Fin (min a k)
      | PosInf \<Rightarrow> Fin k
      | NegInf \<Rightarrow> NegInf
      | NaN \<Rightarrow> NaN)"

definition jsMinus :: "jsnum \<Rightarrow> real \<Rightarrow> jsnum" where
  "jsMinus x k = (case x of Fin a \<Rightarrow> Fin (a - k) | _ \<Rightarrow> x)"

definition jsOver :: "jsnum \<Rightarrow> real \<Rightarrow> jsnum" where
  "jsOver x k =
     (case x of
        Fin a \<Rightarrow> jsDivide a k
      | PosInf \<Rightarrow> (if k < 0 then NegInf else PosInf)
      | NegInf \<Rightarrow> (if k < 0 then PosInf else NegInf)
      | NaN \<Rightarrow> NaN)"

text \<open>\<^verbatim>\<open>Math.round\<close>: the nearest integer, ties towards \<open>+\<infinity>\<close>.\<close>

definition Math_round :: "jsnum \<Rightarrow> jsnum" where
  "Math_round x = (case x of Fin a \<Rightarrow> Fin (of_int \<lfloor>a + 1 / 2\<rfloor>) | _ \<Rightarrow> x)"

definition pad :: real where
  "pad = 24"

definition innerW :: "real \<Rightarrow> real" where
  "innerW width = width - pad * 2"

definition innerH :: "real \<Rightarrow> real" where
  "innerH height = height - pad * 2"

definition xFor :: "TimeSeriesPoint list \<Rightarrow> real \<Rightarrow> real \<Rightarrow> real" where
  "xFor points width i = pad + (i / max (real (length points) - 1) 1) * innerW width"

definition xToT :: "real \<Rightarrow> real \<Rightarrow> jsnum \<Rightarrow> jsnum" where
  "xToT left right x =
     (if right \<le> left then Fin 0
      else jsOver (jsMinus x left) (right - left))"

record MouseEvent =
  clientX :: real
  clientY :: real

record DOMRect =
  rect_left :: real
  rect_top :: real
  rect_width :: real
  rect_height :: real

record HoverState =
  idx :: jsnum
  vx :: jsnum
  vy :: jsnum
  px :: real
  py :: real

text \<open>
  \<open>svg\<close> is the bounding rectangle of the mounted \<^verbatim>\<open>svg\<close> element, \<open>None\<close> while
  \<^verbatim>\<open>svgRef.current\<close> is null.
\<close>

definition hoverFromEvent ::
  "TimeSeriesPoint list \<Rightarrow> real \<Rightarrow> real \<Rightarrow> DOMRect option \<Rightarrow> MouseEvent \<Rightarrow> HoverState option"
where
  "hoverFromEvent points width height svg e =
     (case svg of
        None \<Rightarrow> None
      | Some rect \<Rightarrow>
          (if length points = 0 then None
           else
             (let px0 = clientX e - rect_left rect;
                  py0 = clientY e - rect_top rect;
                  vx0 = jsTimes (jsDivide px0 (rect_width rect)) width;
                  vy0 = jsTimes (jsDivide py0 (rect_height rect)) height;
                  left = pad;
                  right = pad + innerW width;
                  clampedX = jsMin (jsMax vx0 left) right;
                  t = xToT left right clampedX;
                  i = Math_round (jsTimes t (real (length points) - 1));
                  clampedIdx = jsMin (jsMax i 0) (real (length points) - 1)
              in Some \<lparr>idx = clampedIdx, vx = vx0, vy = vy0, px = px0, py = py0\<rparr>)))"

record Chart =
  points :: "TimeSeriesPoint list"
  dims_w :: real
  dims_h :: real
  svgRect :: "DOMRect option"
  hover :: "HoverState option"

definition onMove :: "Chart \<Rightarrow> MouseEvent \<Rightarrow> Chart" where
  "onMove c e = c\<lparr>hover := hoverFromEvent (points c) (dims_w c) (dims_h c) (svgRect c) e\<rparr>"

definition onLeave :: "Chart \<Rightarrow> Chart" where
  "onLeave c = c\<lparr>hover := None\<rparr>"

subsection \<open>The resolver's month arithmetic in calendar terms\<close>

text \<open>
  \<open>isoDate y m d\<close> prints a calendar date (\<open>m\<close> counted from 0) the way
  \<open>toISODateSGT\<close> does. \<open>carryDate y m d\<close> is day \<open>d\<close> of the month \<open>m\<close> of year \<open>y\<close>,
  where \<open>m\<close> may lie outside 0..11 and is first brought into the right year; a day past
  the end of that month is carried into the following month. \<open>monthRanges\<close> lists the
  range tokens that go back by calendar months, with the number of months.
\<close>

definition isoDate :: "int \<Rightarrow> int \<Rightarrow> int \<Rightarrow> string" where
  "isoDate y m d = yearString y @ ''-'' @ pad2 (m + 1) @ ''-'' @ pad2 d"

definition carryDate :: "int \<Rightarrow> int \<Rightarrow> int \<Rightarrow> int \<times> int \<times> int" where
  "carryDate y m d =
     (let ty = y + m div 12; tm = m mod 12
      in if d \<le> DaysInMonth ty tm then (ty, tm, d)
         else (ty + (tm + 1) div 12, (tm + 1) mod 12, d - DaysInMonth ty tm))"

definition monthRanges :: "(string \<times> int) list" where
  "monthRanges = [(''1M'', 1), (''3M'', 3), (''6M'', 6), (''1Y'', 12)]"

subsection \<open>A concrete environment\<close>

text \<open>
  A host in UTC+8 on 2024-03-15T00:00:00Z whose request to the provider fails; the
  examples below run the route in it.
\<close>

definition env0 :: RouteEnv where
  "env0 =
     \<lparr>hostTz = sgtOffset, today = Some 1710460800000, stamp = ''2024-03-15T00:00:00.000Z'',
      runtime = \<lparr>stringToNumber = (\<lambda>s. NaN), primitiveString = (\<lambda>x. [])\<rparr>,
      upstream = Rejected (TypeError ''fetch failed'')\<rparr>"

text \<open>
  Provider answers for the examples: a response that is \<^verbatim>\<open>ok\<close> with a given body, the
  series of the specification's example (the provider reports the business day before the
  requested start), and a latest snapshot that lacks one of the requested symbols.
\<close>

definition okResponse :: "'a \<Rightarrow> 'a response" where
  "okResponse data =
     \<lparr>ok = True, status = 200, statusText = ''OK'', bodyText = [], json = Inr data\<rparr>"

definition jpySeries :: FrankfurterTimeSeriesResponse where
  "jpySeries =
     \<lparr>ft_base = Some ''SGD'', ft_start_date = Some ''2023-12-29'',
      ft_end_date = Some ''2024-01-02'',
      ft_rates = Some [(''2024-01-01'', JObject [(''JPY'', JNumber (Fin 0))]),
                       (''2024-01-02'', JObject [(''JPY'', JNumber (Fin 114.3))])]\<rparr>"

definition jpyParams :: SeriesParams where
  "jpyParams =
     \<lparr>sp_base = ''SGD'', sp_symbol = ''jpy'', sp_from = ''2024-01-01'', sp_to = ''2024-01-02'',
      sp_range = Some ''1D''\<rparr>"

definition usdLatest :: FrankfurterLatestResponse where
  "usdLatest =
     \<lparr>fl_base = Some ''SGD'', fl_date = Some ''2024-03-14'',
      fl_rates = Some [(''USD'', JNumber (Fin 0.75))]\<rparr>"

text \<open>
  Dashboards for the examples: one that tracks USD and has fetched nothing yet, the same
  after a refresh was started and a second one superseded it (the first fetch, of
  controller 0, is aborted and still to settle), and one that tracks USD and holds a
  snapshot.
\<close>

definition tracking :: Dashboard where
  "tracking = initialDashboard\<lparr>watchlist := [''USD'']\<rparr>"

definition superseded :: Dashboard where
  "superseded = fst (loadLatest_start (fst (loadLatest_start tracking)))"

definition usdSnapshot :: LatestRates where
  "usdSnapshot =
     \<lparr>base = ''SGD'', asOf = ''2024-03-15T00:00:00.000Z'', providerDate = Some ''2024-03-14'',
      symbols = [''USD''], rates = [(''USD'', JNumber (Fin 0.75))]\<rparr>"

definition synced :: Dashboard where
  "synced = tracking\<lparr>latest := Some usdSnapshot\<rparr>"

definition badGateway :: "LatestRates fetched" where
  "badGateway =
     Resolved \<lparr>ok = False, status = 502, statusText = ''Bad Gateway'', bodyText = [],
               json = Inl (SyntaxError ''Unexpected end of JSON input'')\<rparr>"

definition offline :: "LatestRates fetched" where
  "offline = Rejected (TypeError ''Failed to fetch'')"

text \<open>
  A chart for the examples: five points in the initial viewport of 640 by 220, drawn into
  an element of half that size.
\<close>

definition fivePoints :: "TimeSeriesPoint list" where
  "fivePoints =
     [\<lparr>point_t = ''2024-03-11'', point_v = Fin 0.74\<rparr>,
      \<lparr>point_t = ''2024-03-12'', point_v = Fin 0.75\<rparr>,
      \<lparr>point_t = ''2024-03-13'', point_v = Fin 0.75\<rparr>,
      \<lparr>point_t = ''2024-03-14'', point_v = Fin 0.76\<rparr>,
      \<lparr>point_t = ''2024-03-15'', point_v = Fin 0.75\<rparr>]"

definition chart5 :: Chart where
  "chart5 =
     \<lparr>points = fivePoints, dims_w = 640, dims_h = 220,
      svgRect = Some \<lparr>rect_left = 10, rect_top = 10, rect_width = 320, rect_height = 110\<rparr>,
      hover = None\<rparr>"

subsection \<open>Hover resolution as the specification words it\<close>

text \<open>
  Hover resolution in the specification's words, for comparison with \<open>hoverFromEvent\<close>:
  the logical \<open>x\<close> is clamped to the plot's inner bounds, taken back to a fractional
  index through the inverse of the horizontal mapping, rounded to the nearest integer and
  clamped to the indices of the \<open>n\<close> points.
\<close>

definition resolveIndex_spec :: "nat \<Rightarrow> real \<Rightarrow> real \<Rightarrow> int" where
  "resolveIndex_spec n width x =
     (let cx = min (max x pad) (pad + innerW width);
          t = (if innerW width \<le> 0 then 0 else (cx - pad) / innerW width)
      in min (max \<lfloor>t * (real n - 1) + 1 / 2\<rfloor> 0) (int n - 1))"

section \<open>Properties\<close>

subsection \<open>Calendar arithmetic\<close>

lemma div_succ:
  fixes a n :: int
  assumes "0 < n"
  shows "(a + 1) div n = a div n + (if (a + 1) mod n = 0 then 1 else 0)"
proof -
  define q r where "q = a div n" and "r = a mod n"
  have a: "a = n * q + r" and r0: "0 \<le> r" and rn: "r < n"
    using assms by (simp_all add: q_def r_def)
  show ?thesis
  proof (cases "r + 1 = n")
    case True
    then have e: "a + 1 = n * (q + 1) + 0"
      using a by (simp add: algebra_simps)
    have "(a + 1) div n = q + 1" "(a + 1) mod n = 0"
      using int_div_pos_eq [OF e] int_mod_pos_eq [OF e] assms by simp_all
    then show ?thesis by (simp add: q_def)
  next
    case False
    have e: "a + 1 = n * q + (r + 1)"
      using a by simp
    have b: "0 \<le> r + 1" "r + 1 < n" using r0 rn False by simp_all
    have "(a + 1) div n = q" "(a + 1) mod n = r + 1"
      using int_div_pos_eq [OF e b] int_mod_pos_eq [OF e b] by simp_all
    then show ?thesis using r0 by (simp add: q_def)
  qed
qed

lemma div_bounds:
  fixes a n :: int
  assumes "0 < n"
  shows "n * (a div n) \<le> a" and "a < n * (a div n) + n"
proof -
  have "n * (a div n) + a mod n = a" by simp
  moreover have "0 \<le> a mod n" "a mod n < n" using assms by simp_all
  ultimately show "n * (a div n) \<le> a" and "a < n * (a div n) + n" by linarith+
qed

lemma DayFromYear_est:
  "146097 * y - 287811690 \<le> 400 * DayFromYear y"
  "400 * DayFromYear y \<le> 146097 * y - 287810490"
proof -
  define a b c where "a = (y - 1969) div 4" and "b = (y - 1901) div 100" and "c = (y - 1601) div 400"
  have A: "4 * a \<le> y - 1969" "y - 1969 < 4 * a + 4"
    unfolding a_def by (rule div_bounds; simp)+
  have B: "100 * b \<le> y - 1901" "y - 1901 < 100 * b + 100"
    unfolding b_def by (rule div_bounds; simp)+
  have C: "400 * c \<le> y - 1601" "y - 1601 < 400 * c + 400"
    unfolding c_def by (rule div_bounds; simp)+
  have E: "400 * DayFromYear y = 146000 * y - 287620000 + 400 * a - 400 * b + 400 * c"
    by (simp add: DayFromYear_def a_def b_def c_def)
  show "146097 * y - 287811690 \<le> 400 * DayFromYear y"
    unfolding E using A B C by linarith
  show "400 * DayFromYear y \<le> 146097 * y - 287810490"
    unfolding E using A B C by linarith
qed

lemma mod_shift:
  fixes y k n :: int
  shows "(y - n * k) mod n = y mod n"
proof -
  have "y - n * k = y + n * (- k)" by simp
  then show ?thesis by (metis mod_mult_self2)
qed

lemma DayFromYear_Suc: "DayFromYear (y + 1) = DayFromYear y + DaysInYear y"
proof -
  have m4: "(y - 1968) mod 4 = y mod 4" using mod_shift [of y 4 492] by simp
  have m100: "(y - 1900) mod 100 = y mod 100" using mod_shift [of y 100 19] by simp
  have m400: "(y - 1600) mod 400 = y mod 400" using mod_shift [of y 400 4] by simp
  have a: "(y - 1968) div 4 = (y - 1969) div 4 + (if y mod 4 = 0 then 1 else 0)"
    using div_succ [of 4 "y - 1969"] m4 by simp
  have b: "(y - 1900) div 100 = (y - 1901) div 100 + (if y mod 100 = 0 then 1 else 0)"
    using div_succ [of 100 "y - 1901"] m100 by simp
  have c: "(y - 1600) div 400 = (y - 1601) div 400 + (if y mod 400 = 0 then 1 else 0)"
    using div_succ [of 400 "y - 1601"] m400 by simp
  have d1: "y mod 4 = 0" if "y mod 100 = 0"
  proof -
    have "(4::int) dvd 100" by simp
    moreover have "100 dvd y" using that by (simp add: mod_eq_0_iff_dvd)
    ultimately have "4 dvd y" by (rule dvd_trans)
    then show ?thesis by (simp add: mod_eq_0_iff_dvd)
  qed
  have d2: "y mod 100 = 0" if "y mod 400 = 0"
  proof -
    have "(100::int) dvd 400" by simp
    moreover have "400 dvd y" using that by (simp add: mod_eq_0_iff_dvd)
    ultimately have "100 dvd y" by (rule dvd_trans)
    then show ?thesis by (simp add: mod_eq_0_iff_dvd)
  qed
  have e: "y + 1 - 1969 = y - 1968" "y + 1 - 1901 = y - 1900" "y + 1 - 1601 = y - 1600"
    by simp_all
  show ?thesis
    unfolding DayFromYear_def DaysInYear_def e a b c using d1 d2 by simp
qed


lemma DaysInYear_cases: "DaysInYear y = 365 \<or> DaysInYear y = 366"
  by (simp add: DaysInYear_def)

lemma YearFromDay_spec:
  "DayFromYear (YearFromDay d) \<le> d \<and> d < DayFromYear (YearFromDay d + 1)"
proof -
  define q where "q = (400 * d) div 146097"
  define y where "y = 1970 + q"
  have Q: "146097 * q \<le> 400 * d" "400 * d < 146097 * q + 146097"
    unfolding q_def by (rule div_bounds; simp)+
  have e1: "146097 * (y - 1) - 287810490 = 146097 * q - 145497"
    unfolding y_def by (simp add: algebra_simps)
  have e2: "146097 * (y + 2) - 287811690 = 146097 * q + 291594"
    unfolding y_def by (simp add: algebra_simps)
  have lo: "DayFromYear (y - 1) \<le> d"
    using DayFromYear_est(2) [of "y - 1", unfolded e1] Q by linarith
  have hi: "d < DayFromYear (y + 2)"
    using DayFromYear_est(1) [of "y + 2", unfolded e2] Q by linarith
  have Y: "YearFromDay d =
      (if d < DayFromYear y then y - 1 else if DayFromYear (y + 1) \<le> d then y + 1 else y)"
    by (simp add: YearFromDay_def Let_def y_def q_def)
  have e: "y + 1 + 1 = y + 2" by simp
  show ?thesis
    unfolding Y using lo hi by (simp add: e)
qed

lemma DayFromYear_mono: "y \<le> y' \<Longrightarrow> DayFromYear y \<le> DayFromYear y'"
proof (induction y' rule: int_ge_induct)
  case base
  show ?case by simp
next
  case (step i)
  have "DayFromYear (i + 1) = DayFromYear i + DaysInYear i" by (rule DayFromYear_Suc)
  with step DaysInYear_cases [of i] show ?case by linarith
qed

lemma YearFromDay_unique:
  assumes "DayFromYear y \<le> d" and "d < DayFromYear (y + 1)"
  shows "YearFromDay d = y"
proof (rule ccontr)
  assume ne: "YearFromDay d \<noteq> y"
  let ?Y = "YearFromDay d"
  have S: "DayFromYear ?Y \<le> d" "d < DayFromYear (?Y + 1)"
    using YearFromDay_spec [of d] by simp_all
  show False
  proof (cases "?Y < y")
    case True
    then have "DayFromYear (?Y + 1) \<le> DayFromYear y" by (intro DayFromYear_mono) simp
    with S assms show False by linarith
  next
    case False
    with ne have "y + 1 \<le> ?Y" by simp
    then have "DayFromYear (y + 1) \<le> DayFromYear ?Y" by (rule DayFromYear_mono)
    with S assms show False by linarith
  qed
qed

lemma Day_MakeDate:
  assumes "0 \<le> tw" "tw < msPerDay"
  shows "Day (MakeDate day tw) = day" and "TimeWithinDay (MakeDate day tw) = tw"
proof -
  have e: "MakeDate day tw = msPerDay * day + tw" by (simp add: MakeDate_def)
  show "Day (MakeDate day tw) = day"
    unfolding Day_def by (rule int_div_pos_eq [OF e assms])
  show "TimeWithinDay (MakeDate day tw) = tw"
    unfolding TimeWithinDay_def by (rule int_mod_pos_eq [OF e assms])
qed

lemma TimeWithinDay_bounds: "0 \<le> TimeWithinDay t" "TimeWithinDay t < msPerDay"
  by (simp_all add: TimeWithinDay_def msPerDay_def)


lemma month_cases:
  fixes mn :: int
  assumes "0 \<le> mn" "mn \<le> 11"
  obtains "mn = 0" | "mn = 1" | "mn = 2" | "mn = 3" | "mn = 4" | "mn = 5"
    | "mn = 6" | "mn = 7" | "mn = 8" | "mn = 9" | "mn = 10" | "mn = 11"
proof -
  have "mn = 0 \<or> mn = 1 \<or> mn = 2 \<or> mn = 3 \<or> mn = 4 \<or> mn = 5
      \<or> mn = 6 \<or> mn = 7 \<or> mn = 8 \<or> mn = 9 \<or> mn = 10 \<or> mn = 11"
    using assms by presburger
  then show thesis using that by blast
qed

lemma DaysInMonth_leap:
  "DaysInMonth y mn =
     (if mn = 1 then 28 + (if DaysInYear y = 366 then 1 else 0)
      else if mn = 3 \<or> mn = 5 \<or> mn = 8 \<or> mn = 10 then 30 else 31)"
  by (simp add: DaysInMonth_def)

lemma civil_of_MakeDay:
  assumes mn: "0 \<le> mn" "mn \<le> 11"
    and dt: "1 \<le> dt" "dt \<le> DaysInMonth y mn"
    and t: "Day t = MakeDay y mn dt"
  shows "YearFromTime t = y \<and> MonthFromTime t = mn \<and> DateFromTime t = dt"
proof -
  define l :: int where "l = (if DaysInYear y = 366 then 1 else 0)"
  define off where "off = monthStart mn l + dt - 1"
  have dm: "mn div 12 = 0" "mn mod 12 = mn" using mn by simp_all
  have M: "Day t = DayFromYear y + off"
    by (simp add: t MakeDay_def Let_def dm off_def l_def)
  have len: "DaysInYear y = 365 + l"
    using DaysInYear_cases [of y] by (auto simp: l_def)
  have l01: "0 \<le> l" "l \<le> 1" by (simp_all add: l_def)
  have dt': "dt \<le> (if mn = 1 then 28 + l
      else if mn = 3 \<or> mn = 5 \<or> mn = 8 \<or> mn = 10 then 30 else 31)"
    using dt(2) unfolding DaysInMonth_leap l_def .
  have Y: "YearFromTime t = y" if "0 \<le> off" "off < 365 + l"
    unfolding YearFromTime_def
    by (rule YearFromDay_unique) (use M that len DayFromYear_Suc [of y] in simp_all)
  have L: "InLeapYear t = l" if "YearFromTime t = y" by (simp add: InLeapYear_def that l_def)
  have W: "DayWithinYear t = off" if "YearFromTime t = y" by (simp add: DayWithinYear_def that M)
  have F: "MonthFromTime t = (if off < 31 then 0
         else if off < 59 + l then 1
         else if off < 90 + l then 2
         else if off < 120 + l then 3
         else if off < 151 + l then 4
         else if off < 181 + l then 5
         else if off < 212 + l then 6
         else if off < 243 + l then 7
         else if off < 273 + l then 8
         else if off < 304 + l then 9
         else if off < 334 + l then 10
         else 11)" 
     "DateFromTime t = off + 1 - monthStart (MonthFromTime t) l" if "YearFromTime t = y"
    unfolding MonthFromTime_def DateFromTime_def Let_def W [OF that] L [OF that]
    by (simp_all add: monthStart_def)
  from mn show ?thesis
  proof (cases rule: month_cases [of mn])
    case 1
    with dt(1) dt' l01 have o: "0 \<le> off" "off < 31" by (simp_all add: off_def monthStart_def)
    with l01 have y: "YearFromTime t = y" by (intro Y) simp_all
    show ?thesis using o l01 1 by (simp add: y F [OF y] off_def monthStart_def)
  next
    case 2
    with dt(1) dt' l01 have o: "31 \<le> off" "off < 59 + l" by (simp_all add: off_def monthStart_def)
    with l01 have y: "YearFromTime t = y" by (intro Y) simp_all
    show ?thesis using o l01 2 by (simp add: y F [OF y] off_def monthStart_def)
  next
    case 3
    with dt(1) dt' l01 have o: "59 + l \<le> off" "off < 90 + l" by (simp_all add: off_def monthStart_def)
    with l01 have y: "YearFromTime t = y" by (intro Y) simp_all
    show ?thesis using o l01 3 by (simp add: y F [OF y] off_def monthStart_def)
  next
    case 4
    with dt(1) dt' l01 have o: "90 + l \<le> off" "off < 120 + l" by (simp_all add: off_def monthStart_def)
    with l01 have y: "YearFromTime t = y" by (intro Y) simp_all
    show ?thesis using o l01 4 by (simp add: y F [OF y] off_def monthStart_def)
  next
    case 5
    with dt(1) dt' l01 have o: "120 + l \<le> off" "off < 151 + l" by (simp_all add: off_def monthStart_def)
    with l01 have y: "YearFromTime t = y" by (intro Y) simp_all
    show ?thesis using o l01 5 by (simp add: y F [OF y] off_def monthStart_def)
  next
    case 6
    with dt(1) dt' l01 have o: "151 + l \<le> off" "off < 181 + l" by (simp_all add: off_def monthStart_def)
    with l01 have y: "YearFromTime t = y" by (intro Y) simp_all
    show ?thesis using o l01 6 by (simp add: y F [OF y] off_def monthStart_def)
  next
    case 7
    with dt(1) dt' l01 have o: "181 + l \<le> off" "off < 212 + l" by (simp_all add: off_def monthStart_def)
    with l01 have y: "YearFromTime t = y" by (intro Y) simp_all
    show ?thesis using o l01 7 by (simp add: y F [OF y] off_def monthStart_def)
  next
    case 8
    with dt(1) dt' l01 have o: "212 + l \<le> off" "off < 243 + l" by (simp_all add: off_def monthStart_def)
    with l01 have y: "YearFromTime t = y" by (intro Y) simp_all
    show ?thesis using o l01 8 by (simp add: y F [OF y] off_def monthStart_def)
  next
    case 9
    with dt(1) dt' l01 have o: "243 + l \<le> off" "off < 273 + l" by (simp_all add: off_def monthStart_def)
    with l01 have y: "YearFromTime t = y" by (intro Y) simp_all
    show ?thesis using o l01 9 by (simp add: y F [OF y] off_def monthStart_def)
  next
    case 10
    with dt(1) dt' l01 have o: "273 + l \<le> off" "off < 304 + l" by (simp_all add: off_def monthStart_def)
    with l01 have y: "YearFromTime t = y" by (intro Y) simp_all
    show ?thesis using o l01 10 by (simp add: y F [OF y] off_def monthStart_def)
  next
    case 11
    with dt(1) dt' l01 have o: "304 + l \<le> off" "off < 334 + l" by (simp_all add: off_def monthStart_def)
    with l01 have y: "YearFromTime t = y" by (intro Y) simp_all
    show ?thesis using o l01 11 by (simp add: y F [OF y] off_def monthStart_def)
  next
    case 12
    with dt(1) dt' l01 have o: "334 + l \<le> off" "off < 365 + l" by (simp_all add: off_def monthStart_def)
    with l01 have y: "YearFromTime t = y" by (intro Y) simp_all
    show ?thesis using o l01 12 by (simp add: y F [OF y] off_def monthStart_def)
  qed
qed

lemma civil_valid:
  fixes t :: int
  defines "Y \<equiv> YearFromTime t" and "M \<equiv> MonthFromTime t" and "D \<equiv> DateFromTime t"
  shows "0 \<le> M \<and> M \<le> 11 \<and> 1 \<le> D \<and> D \<le> DaysInMonth Y M \<and> MakeDay Y M D = Day t"
proof -
  define l :: int where "l = InLeapYear t"
  define d where "d = DayWithinYear t"
  have l01: "0 \<le> l" "l \<le> 1" by (simp_all add: l_def InLeapYear_def)
  have len: "DaysInYear Y = 365 + l"
    using DaysInYear_cases [of Y] by (auto simp: l_def InLeapYear_def Y_def)
  have S: "DayFromYear Y \<le> Day t" "Day t < DayFromYear Y + DaysInYear Y"
    using YearFromDay_spec [of "Day t"] DayFromYear_Suc [of Y]
    by (simp_all add: Y_def YearFromTime_def)
  have d: "0 \<le> d" "d < 365 + l" using S len by (simp_all add: d_def DayWithinYear_def Y_def)
  have ll: "(if DaysInYear Y = 366 then 1 else 0) = l"
    by (simp add: l_def InLeapYear_def Y_def)
  have Mdef: "M = (if d < 31 then 0
         else if d < 59 + l then 1
         else if d < 90 + l then 2
         else if d < 120 + l then 3
         else if d < 151 + l then 4
         else if d < 181 + l then 5
         else if d < 212 + l then 6
         else if d < 243 + l then 7
         else if d < 273 + l then 8
         else if d < 304 + l then 9
         else if d < 334 + l then 10
         else 11)"
    by (simp add: M_def MonthFromTime_def Let_def d_def l_def)
  have Ddef: "D = d + 1 - monthStart M l"
    unfolding D_def DateFromTime_def Let_def d_def [symmetric] l_def [symmetric] M_def [symmetric]
    by (simp add: monthStart_def)
  have dim: "DaysInMonth Y m =
     (if m = 1 then 28 + l else if m = 3 \<or> m = 5 \<or> m = 8 \<or> m = 10 then 30 else 31)" for m
    unfolding DaysInMonth_leap ll ..
  consider "d < 31" | "31 \<le> d" "d < 59 + l" | "59 + l \<le> d" "d < 90 + l"
    | "90 + l \<le> d" "d < 120 + l" | "120 + l \<le> d" "d < 151 + l"
    | "151 + l \<le> d" "d < 181 + l" | "181 + l \<le> d" "d < 212 + l"
    | "212 + l \<le> d" "d < 243 + l" | "243 + l \<le> d" "d < 273 + l"
    | "273 + l \<le> d" "d < 304 + l" | "304 + l \<le> d" "d < 334 + l"
    | "334 + l \<le> d"
    by (metis not_le)
  then have R: "0 \<le> M \<and> M \<le> 11 \<and> 1 \<le> D \<and> D \<le> DaysInMonth Y M"
  proof cases
    case 1
    then have "M = 0" by (simp add: Mdef)
    with 1 d l01 show ?thesis by (simp add: Ddef dim monthStart_def)
  next
    case 2
    with l01 have "M = 1" by (simp add: Mdef)
    with 2 d l01 show ?thesis by (simp add: Ddef dim monthStart_def)
  next
    case 3
    with l01 have "M = 2" by (simp add: Mdef)
    with 3 d l01 show ?thesis by (simp add: Ddef dim monthStart_def)
  next
    case 4
    with l01 have "M = 3" by (simp add: Mdef)
    with 4 d l01 show ?thesis by (simp add: Ddef dim monthStart_def)
  next
    case 5
    with l01 have "M = 4" by (simp add: Mdef)
    with 5 d l01 show ?thesis by (simp add: Ddef dim monthStart_def)
  next
    case 6
    with l01 have "M = 5" by (simp add: Mdef)
    with 6 d l01 show ?thesis by (simp add: Ddef dim monthStart_def)
  next
    case 7
    with l01 have "M = 6" by (simp add: Mdef)
    with 7 d l01 show ?thesis by (simp add: Ddef dim monthStart_def)
  next
    case 8
    with l01 have "M = 7" by (simp add: Mdef)
    with 8 d l01 show ?thesis by (simp add: Ddef dim monthStart_def)
  next
    case 9
    with l01 have "M = 8" by (simp add: Mdef)
    with 9 d l01 show ?thesis by (simp add: Ddef dim monthStart_def)
  next
    case 10
    with l01 have "M = 9" by (simp add: Mdef)
    with 10 d l01 show ?thesis by (simp add: Ddef dim monthStart_def)
  next
    case 11
    with l01 have "M = 10" by (simp add: Mdef)
    with 11 d l01 show ?thesis by (simp add: Ddef dim monthStart_def)
  next
    case 12
    with l01 have "M = 11" by (simp add: Mdef)
    with 12 d l01 show ?thesis by (simp add: Ddef dim monthStart_def)
  qed
  then have dm: "M div 12 = 0" "M mod 12 = M" by simp_all
  have "MakeDay Y M D = DayFromYear Y + (monthStart M l + D - 1)"
    by (simp add: MakeDay_def Let_def dm ll)
  also have "\<dots> = Day t" by (simp add: Ddef d_def DayWithinYear_def Y_def)
  finally show ?thesis using R by simp
qed

lemma mod_succ:
  fixes a n :: int
  assumes "0 < n"
  shows "(a + 1) mod n = (if a mod n = n - 1 then 0 else a mod n + 1)"
    and "(a + 1) div n = (if a mod n = n - 1 then a div n + 1 else a div n)"
proof -
  define q r where "q = a div n" and "r = a mod n"
  have a: "a = n * q + r" and r0: "0 \<le> r" and rn: "r < n"
    using assms by (simp_all add: q_def r_def)
  have "(a + 1) mod n = (if r = n - 1 then 0 else r + 1) \<and>
        (a + 1) div n = (if r = n - 1 then q + 1 else q)"
  proof (cases "r = n - 1")
    case True
    then have e: "a + 1 = n * (q + 1) + 0"
      using a by (simp add: algebra_simps)
    show ?thesis
      using int_div_pos_eq [OF e] int_mod_pos_eq [OF e] assms True by simp
  next
    case False
    have e: "a + 1 = n * q + (r + 1)"
      using a by simp
    have b: "0 \<le> r + 1" "r + 1 < n" using r0 rn False by simp_all
    show ?thesis
      using int_div_pos_eq [OF e b] int_mod_pos_eq [OF e b] False by simp
  qed
  then show "(a + 1) mod n = (if a mod n = n - 1 then 0 else a mod n + 1)"
    and "(a + 1) div n = (if a mod n = n - 1 then a div n + 1 else a div n)"
    by (simp_all add: q_def r_def)
qed

lemma DaysInMonth_bounds: "28 \<le> DaysInMonth y mn" "DaysInMonth y mn \<le> 31"
  by (simp_all add: DaysInMonth_def)

lemma MakeDay_step:
  "MakeDay y (m + 1) dt = MakeDay y m dt + DaysInMonth (y + m div 12) (m mod 12)"
proof -
  define q r where "q = m div 12" and "r = m mod 12"
  have r: "0 \<le> r" "r \<le> 11" by (simp_all add: r_def) 
  define l :: int where "l = (if DaysInYear (y + q) = 366 then 1 else 0)"
  have len: "DaysInYear (y + q) = 365 + l"
    using DaysInYear_cases [of "y + q"] by (auto simp: l_def)
  have A: "MakeDay y m dt = DayFromYear (y + q) + monthStart r l + dt - 1"
    by (simp add: MakeDay_def Let_def q_def r_def l_def)
  show ?thesis
  proof (cases "r = 11")
    case True
    have dm: "(m + 1) div 12 = q + 1" "(m + 1) mod 12 = 0"
      using mod_succ [of 12 m] True by (simp_all add: q_def r_def)
    have "MakeDay y (m + 1) dt = DayFromYear (y + q + 1) + dt - 1"
      by (simp add: MakeDay_def Let_def dm monthStart_def add.assoc)
    also have "\<dots> = DayFromYear (y + q) + DaysInYear (y + q) + dt - 1"
      by (simp add: DayFromYear_Suc)
    finally show ?thesis
      using True len unfolding A q_def [symmetric] r_def [symmetric]
      by (simp add: monthStart_def DaysInMonth_def)
  next
    case False
    have dm: "(m + 1) div 12 = q" "(m + 1) mod 12 = r + 1"
      using mod_succ [of 12 m] False by (simp_all add: q_def r_def)
    have B: "MakeDay y (m + 1) dt = DayFromYear (y + q) + monthStart (r + 1) l + dt - 1"
      by (simp add: MakeDay_def Let_def dm l_def)
    have "monthStart (r + 1) l = monthStart r l + DaysInMonth (y + q) r"
      using r False
      by (cases rule: month_cases [of r]) (auto simp: monthStart_def DaysInMonth_def l_def)
    then show ?thesis
      unfolding A B q_def [symmetric] r_def [symmetric] by simp
  qed
qed

lemma MakeDay_back:
  "MakeDay y (m - int k) dt \<le> MakeDay y m dt \<and> MakeDay y m dt - 31 * int k \<le> MakeDay y (m - int k) dt"
proof (induction k)
  case 0
  show ?case by simp
next
  case (Suc k)
  have e: "m - int (Suc k) + 1 = m - int k" by simp
  have "MakeDay y (m - int k) dt =
      MakeDay y (m - int (Suc k)) dt
      + DaysInMonth (y + (m - int (Suc k)) div 12) ((m - int (Suc k)) mod 12)"
    using MakeDay_step [of y "m - int (Suc k)" dt] unfolding e .
  with Suc DaysInMonth_bounds [of "y + (m - int (Suc k)) div 12" "(m - int (Suc k)) mod 12"]
  show ?case by simp
qed

lemma MakeDay_normal:
  "MakeDay y m dt = MakeDay (y + m div 12) (m mod 12) dt"
  by (simp add: MakeDay_def Let_def)

subsection \<open>The date-window resolver\<close>

lemma toISODateSGT_Some:
  "toISODateSGT (Some t) =
     Inr (isoDate (YearFromTime (t + sgtOffset)) (MonthFromTime (t + sgtOffset))
            (DateFromTime (t + sgtOffset)))"
  by (simp add: toISODateSGT_def isoDate_def Let_def)

lemma MakeDay_date: "MakeDay y m a = MakeDay y m b + (a - b)"
  by (simp add: MakeDay_def Let_def)

lemma civil_carry:
  assumes D: "1 \<le> D" "D \<le> 31" and t: "Day t = MakeDay y m D"
  shows "(YearFromTime t, MonthFromTime t, DateFromTime t) = carryDate y m D"
proof -
  define ty tm where "ty = y + m div 12" and "tm = m mod 12"
  have tm: "0 \<le> tm" "tm \<le> 11" by (simp_all add: tm_def)
  have N: "Day t = MakeDay ty tm D"
    using t MakeDay_normal [of y m D] by (simp add: ty_def tm_def)
  show ?thesis
  proof (cases "D \<le> DaysInMonth ty tm")
    case True
    from civil_of_MakeDay [OF tm D(1) True N] True show ?thesis
      by (simp add: carryDate_def Let_def ty_def tm_def)
  next
    case False
    define ty' tm' where "ty' = ty + (tm + 1) div 12" and "tm' = (tm + 1) mod 12"
    define D' where "D' = D - DaysInMonth ty tm"
    have tm': "0 \<le> tm'" "tm' \<le> 11" by (simp_all add: tm'_def)
    have tmn: "tm div 12 = 0" "tm mod 12 = tm" using tm by simp_all
    have "MakeDay ty (tm + 1) D' = MakeDay ty tm D' + DaysInMonth ty tm"
      using MakeDay_step [of ty tm D'] by (simp add: tmn)
    also have "\<dots> = MakeDay ty tm D"
      using MakeDay_date [of ty tm D' D] by (simp add: D'_def)
    finally have "Day t = MakeDay ty (tm + 1) D'" using N by simp
    then have N': "Day t = MakeDay ty' tm' D'"
      using MakeDay_normal [of ty "tm + 1" D'] by (simp add: ty'_def tm'_def)
    have D': "1 \<le> D'" "D' \<le> DaysInMonth ty' tm'"
      using False D DaysInMonth_bounds [of ty tm] DaysInMonth_bounds [of ty' tm']
      by (simp_all add: D'_def)
    from civil_of_MakeDay [OF tm' D' N'] False show ?thesis
      by (simp add: carryDate_def Let_def ty_def [symmetric] tm_def [symmetric] ty'_def tm'_def D'_def)
  qed
qed

lemma toUpperCase_tokens:
  "toUpperCase ''1D'' = ''1D''" "toUpperCase ''1W'' = ''1W''" "toUpperCase ''1M'' = ''1M''"
  "toUpperCase ''3M'' = ''3M''" "toUpperCase ''6M'' = ''6M''" "toUpperCase ''1Y'' = ''1Y''"
  by (simp_all add: toUpperCase_def toUpperChar_def)

lemma shiftBack_months:
  assumes "(tok, k) \<in> set monthRanges"
  shows "shiftBack tz tok (Some t) =
     (let l = LocalTime tz t
      in TimeClip (UTC tz (MakeDate (MakeDay (YearFromTime l) (MonthFromTime l - k) (DateFromTime l))
                                    (TimeWithinDay l))))"
proof -
  have Y: "MakeDay (y - 1) m d = MakeDay y (m - 12) d" for y m d
  proof -
    have "(m - 12) div 12 = m div 12 - 1" and mm: "(m - 12) mod 12 = m mod 12"
      using div_add_self2 [of 12 "m - 12"] mod_add_self2 [of "m - 12" 12] by simp_all
    then have e: "y - 1 + m div 12 = y + (m - 12) div 12" by simp
    show ?thesis unfolding MakeDay_def Let_def e mm ..
  qed
  from assms consider "tok = ''1M''" "k = 1" | "tok = ''3M''" "k = 3"
    | "tok = ''6M''" "k = 6" | "tok = ''1Y''" "k = 12"
    by (auto simp: monthRanges_def)
  then show ?thesis
    by cases
      (simp_all add: shiftBack_def setMonth_def setFullYear_def getMonth_def getFullYear_def
        numMinus_def Let_def Y)
qed


lemma computeRangeDates_months_tz:
  assumes tok: "(tok, k) \<in> set monthRanges"
    and lo: "372 * msPerDay - maxTime \<le> t" and hi: "t \<le> maxTime"
  shows "computeRangeDates tz tok (Some t) =
     (let l = t + tz;
          u = MakeDate (MakeDay (YearFromTime l) (MonthFromTime l - k) (DateFromTime l))
                (TimeWithinDay l) - tz
      in case toISODateSGT (Some t) of
           Inl e \<Rightarrow> Inl e
         | Inr toStr \<Rightarrow>
             (case toISODateSGT (Some u) of
                Inl e \<Rightarrow> Inl e
              | Inr fromStr \<Rightarrow> Inr \<lparr>fromDate = fromStr, toDate = toStr\<rparr>))"
proof -
  define l where "l = t + tz"
  define Y M D where "Y = YearFromTime l" and "M = MonthFromTime l" and "D = DateFromTime l"
  define tw where "tw = TimeWithinDay l"
  define md where "md = MakeDay Y (M - k) D"
  define u where "u = MakeDate md tw - tz"
  have V: "MakeDay Y M D = Day l"
    using civil_valid [of l] by (simp_all add: Y_def M_def D_def)
  have k: "k = int (nat k)" "0 \<le> k" "k \<le> 12" using tok by (auto simp: monthRanges_def)
  have B: "md \<le> Day l" "Day l - 372 \<le> md"
    using MakeDay_back [of Y M "nat k" D] k V by (simp_all add: md_def)
  have L: "l = Day l * msPerDay + tw"
    by (simp add: Day_def tw_def TimeWithinDay_def)
  have ub: "u \<le> t" "t - 372 * msPerDay \<le> u"
    using B L unfolding u_def MakeDate_def l_def msPerDay_def by linarith+
  have clip: "TimeClip u = Some u"
    using ub lo hi unfolding TimeClip_def msPerDay_def maxTime_def by simp
  have up: "toUpperCase tok = tok"
    using tok toUpperCase_tokens by (auto simp: monthRanges_def)
  have sh: "shiftBack tz tok (Some t) = Some u"
    using shiftBack_months [OF tok, of tz t] clip
    by (simp add: Let_def LocalTime_def UTC_def l_def [symmetric] Y_def [symmetric]
        M_def [symmetric] D_def [symmetric] tw_def [symmetric] md_def [symmetric]
        u_def [symmetric])
  have "computeRangeDates tz tok (Some t) =
      (case toISODateSGT (Some t) of
         Inl e \<Rightarrow> Inl e
       | Inr toStr \<Rightarrow>
           (case toISODateSGT (Some u) of
              Inl e \<Rightarrow> Inl e
            | Inr fromStr \<Rightarrow> Inr \<lparr>fromDate = fromStr, toDate = toStr\<rparr>))"
    by (simp add: computeRangeDates_def up sh Let_def split: sum.splits)
  then show ?thesis
    by (simp add: Let_def u_def md_def tw_def Y_def M_def D_def l_def cong: sum.case_cong)
qed

lemma computeRangeDates_months:
  assumes tok: "(tok, k) \<in> set monthRanges"
    and lo: "sgtSince + 372 * msPerDay \<le> t" and hi: "t \<le> maxTime"
  shows "computeRangeDates sgtOffset tok (Some t) =
     (let l = t + sgtOffset; Y = YearFromTime l; M = MonthFromTime l; D = DateFromTime l
      in Inr \<lparr>fromDate = (case carryDate Y (M - k) D of (y', m', d') \<Rightarrow> isoDate y' m' d'),
              toDate = isoDate Y M D\<rparr>)"
proof -
  define l where "l = t + sgtOffset"
  define Y M D where "Y = YearFromTime l" and "M = MonthFromTime l" and "D = DateFromTime l"
  define tw where "tw = TimeWithinDay l"
  define md where "md = MakeDay Y (M - k) D"
  define u where "u = MakeDate md tw - sgtOffset"
  have V: "1 \<le> D" "D \<le> DaysInMonth Y M"
    using civil_valid [of l] by (simp_all add: Y_def M_def D_def)
  have D31: "D \<le> 31" using V(2) DaysInMonth_bounds(2) [of Y M] by linarith
  have tw: "0 \<le> tw" "tw < msPerDay" using TimeWithinDay_bounds [of l] by (simp_all add: tw_def)
  have lo': "372 * msPerDay - maxTime \<le> t"
    using lo by (simp add: sgtSince_def msPerDay_def maxTime_def)
  have ul: "u + sgtOffset = MakeDate md tw" by (simp add: u_def)
  have "Day (u + sgtOffset) = MakeDay Y (M - k) D"
    unfolding ul using Day_MakeDate(1) [OF tw, of md] by (simp add: md_def)
  from civil_carry [OF V(1) D31 this]
  have fr: "toISODateSGT (Some u) =
      Inr (case carryDate Y (M - k) D of (y', m', d') \<Rightarrow> isoDate y' m' d')"
    unfolding toISODateSGT_Some by (auto split: prod.splits)
  have to: "toISODateSGT (Some t) = Inr (isoDate Y M D)"
    unfolding toISODateSGT_Some by (simp add: Y_def M_def D_def l_def)
  have "computeRangeDates sgtOffset tok (Some t) =
      (case toISODateSGT (Some t) of
         Inl e \<Rightarrow> Inl e
       | Inr toStr \<Rightarrow>
           (case toISODateSGT (Some u) of
              Inl e \<Rightarrow> Inl e
            | Inr fromStr \<Rightarrow> Inr \<lparr>fromDate = fromStr, toDate = toStr\<rparr>))"
    unfolding computeRangeDates_months_tz [OF tok lo' hi]
    by (simp add: Let_def u_def md_def tw_def Y_def M_def D_def l_def cong: sum.case_cong)
  then show ?thesis
    by (simp add: to fr Let_def Y_def M_def D_def l_def)
qed

text \<open>Evaluating the calendar functions and the printed dates on numerals.\<close>

lemmas calendar_defs =
  YearFromTime_def MonthFromTime_def DateFromTime_def DayWithinYear_def InLeapYear_def
  Day_def TimeWithinDay_def msPerDay_def YearFromDay_def DayFromYear_def DaysInYear_def
  MakeDay_def MakeDate_def monthStart_def DaysInMonth_def carryDate_def Let_def

lemmas print_defs = isoDate_def yearString_def pad2_def digits.simps

lemma fields_20240315_sgt:
  "YearFromTime (1710460800000 + sgtOffset) = 2024"
  "MonthFromTime (1710460800000 + sgtOffset) = 2"
  "DateFromTime (1710460800000 + sgtOffset) = 15"
  by (simp_all add: sgtOffset_def calendar_defs)

lemma fields_20240331_sgt:
  "YearFromTime (1711857600000 + sgtOffset) = 2024"
  "MonthFromTime (1711857600000 + sgtOffset) = 2"
  "DateFromTime (1711857600000 + sgtOffset) = 31"
  by (simp_all add: sgtOffset_def calendar_defs)

lemma fields_20240401_sgt:
  "YearFromTime (1711915200000 + sgtOffset) = 2024"
  "MonthFromTime (1711915200000 + sgtOffset) = 3"
  "DateFromTime (1711915200000 + sgtOffset) = 1"
  by (simp_all add: sgtOffset_def calendar_defs)

lemma model_range:
  "sgtSince + 372 * msPerDay \<le> 1710460800000" "(1710460800000 :: int) \<le> maxTime"
  "sgtSince + 372 * msPerDay \<le> 1711857600000" "(1711857600000 :: int) \<le> maxTime"
  "sgtSince + 372 * msPerDay \<le> 1711915200000" "(1711915200000 :: int) \<le> maxTime"
  "372 * msPerDay - maxTime \<le> 1710460800000" "372 * msPerDay - maxTime \<le> 1711915200000"
  by (simp_all add: sgtSince_def msPerDay_def maxTime_def)

lemma monthRanges_mem:
  "(''1M'', 1) \<in> set monthRanges" "(''1Y'', 12) \<in> set monthRanges"
  by (simp_all add: monthRanges_def)

lemma window_20240315_sgt:
  "computeRangeDates sgtOffset ''1M'' (Some 1710460800000) =
     Inr \<lparr>fromDate = ''2024-02-15'', toDate = ''2024-03-15''\<rparr>"
proof -
  have c: "carryDate 2024 1 15 = (2024, 1, 15)" by (simp add: calendar_defs)
  have p: "isoDate 2024 1 15 = ''2024-02-15''" "isoDate 2024 2 15 = ''2024-03-15''"
    by (simp_all add: print_defs)
  show ?thesis
    unfolding computeRangeDates_months [OF monthRanges_mem(1) model_range(1,2)]
    by (simp add: Let_def fields_20240315_sgt c p)
qed

lemma window_20240315_utc:
  "computeRangeDates 0 ''1M'' (Some 1710460800000) =
     Inr \<lparr>fromDate = ''2024-02-15'', toDate = ''2024-03-15''\<rparr>"
proof -
  have l: "YearFromTime 1710460800000 = 2024" "MonthFromTime 1710460800000 = 2"
    "DateFromTime 1710460800000 = 15" "TimeWithinDay 1710460800000 = 0"
    by (simp_all add: calendar_defs)
  have u: "MakeDate (MakeDay 2024 1 15) 0 = 1707955200000" by (simp add: calendar_defs)
  have f: "YearFromTime (1707955200000 + sgtOffset) = 2024"
    "MonthFromTime (1707955200000 + sgtOffset) = 1"
    "DateFromTime (1707955200000 + sgtOffset) = 15"
    by (simp_all add: sgtOffset_def calendar_defs)
  have p: "isoDate 2024 1 15 = ''2024-02-15''" "isoDate 2024 2 15 = ''2024-03-15''"
    by (simp_all add: print_defs)
  show ?thesis
    unfolding computeRangeDates_months_tz [OF monthRanges_mem(1) model_range(7,2)]
    by (simp add: Let_def l u toISODateSGT_Some fields_20240315_sgt f p)
qed

lemma window_20240331_sgt:
  "computeRangeDates sgtOffset ''1M'' (Some 1711857600000) =
     Inr \<lparr>fromDate = ''2024-03-02'', toDate = ''2024-03-31''\<rparr>"
proof -
  have c: "carryDate 2024 1 31 = (2024, 2, 2)" by (simp add: calendar_defs)
  have p: "isoDate 2024 2 2 = ''2024-03-02''" "isoDate 2024 2 31 = ''2024-03-31''"
    by (simp_all add: print_defs)
  show ?thesis
    unfolding computeRangeDates_months [OF monthRanges_mem(1) model_range(3,4)]
    by (simp add: Let_def fields_20240331_sgt c p)
qed

lemma window_20240401_sgt:
  "computeRangeDates sgtOffset ''1M'' (Some 1711915200000) =
     Inr \<lparr>fromDate = ''2024-03-01'', toDate = ''2024-04-01''\<rparr>"
proof -
  have c: "carryDate 2024 2 1 = (2024, 2, 1)" by (simp add: calendar_defs)
  have p: "isoDate 2024 2 1 = ''2024-03-01''" "isoDate 2024 3 1 = ''2024-04-01''"
    by (simp_all add: print_defs)
  show ?thesis
    unfolding computeRangeDates_months [OF monthRanges_mem(1) model_range(5,6)]
    by (simp add: Let_def fields_20240401_sgt c p)
qed

lemma window_20240401_utc:
  "computeRangeDates 0 ''1M'' (Some 1711915200000) =
     Inr \<lparr>fromDate = ''2024-03-03'', toDate = ''2024-04-01''\<rparr>"
proof -
  have l: "YearFromTime 1711915200000 = 2024" "MonthFromTime 1711915200000 = 2"
    "DateFromTime 1711915200000 = 31" "TimeWithinDay 1711915200000 = 72000000"
    by (simp_all add: calendar_defs)
  have u: "MakeDate (MakeDay 2024 1 31) 72000000 = 1709409600000" by (simp add: calendar_defs)
  have f: "YearFromTime (1709409600000 + sgtOffset) = 2024"
    "MonthFromTime (1709409600000 + sgtOffset) = 2"
    "DateFromTime (1709409600000 + sgtOffset) = 3"
    by (simp_all add: sgtOffset_def calendar_defs)
  have p: "isoDate 2024 2 3 = ''2024-03-03''" "isoDate 2024 3 1 = ''2024-04-01''"
    by (simp_all add: print_defs)
  show ?thesis
    unfolding computeRangeDates_months_tz [OF monthRanges_mem(1) model_range(8,6)]
    by (simp add: Let_def l u toISODateSGT_Some fields_20240401_sgt f p)
qed

text \<open>
  C3. With the host clock in the fixed zone (UTC+8), going back by one, three or six
  months or by a year keeps the day of the month when the target month has it, and
  otherwise carries the excess days into the month after the target month (JavaScript's
  date normalisation); it does not fall back to the last day of the target month. For
  2024-03-15T00:00:00Z and the range 1M the window is 2024-02-15 to 2024-03-15, on a host
  in UTC+8 and on a host in UTC.
\<close>

theorem resolver_months_carry:
  assumes "(tok, k) \<in> set monthRanges"
    and "sgtSince + 372 * msPerDay \<le> t" and "t \<le> maxTime"
  shows "computeRangeDates sgtOffset tok (Some t) =
       (let l = t + sgtOffset; Y = YearFromTime l; M = MonthFromTime l; D = DateFromTime l
        in Inr \<lparr>fromDate = (case carryDate Y (M - k) D of (y', m', d') \<Rightarrow> isoDate y' m' d'),
                toDate = isoDate Y M D\<rparr>)
     \<and> computeRangeDates sgtOffset ''1M'' (Some 1710460800000) =
         Inr \<lparr>fromDate = ''2024-02-15'', toDate = ''2024-03-15''\<rparr>
     \<and> computeRangeDates 0 ''1M'' (Some 1710460800000) =
         Inr \<lparr>fromDate = ''2024-02-15'', toDate = ''2024-03-15''\<rparr>"
  using computeRangeDates_months [OF assms] window_20240315_sgt window_20240315_utc by simp

text \<open>
  The theorem at 2024-03-31T04:00:00Z (noon of 31 March in Singapore) and the range 1M:
  February 2024 has 29 days, and the window starts on 2 March.
\<close>

theorem resolver_months_carry_witness:
  "(''1M'', 1) \<in> set monthRanges
   \<and> sgtSince + 372 * msPerDay \<le> 1711857600000 \<and> (1711857600000 :: int) \<le> maxTime
   \<and> computeRangeDates sgtOffset ''1M'' (Some 1711857600000) =
       Inr \<lparr>fromDate = isoDate 2024 2 2, toDate = isoDate 2024 2 31\<rparr>"
proof -
  have d: "carryDate 2024 1 31 = (2024, 2, 2)" by (simp add: calendar_defs)
  from resolver_months_carry [OF monthRanges_mem(1) model_range(3,4)]
    monthRanges_mem(1) model_range(3,4)
  show ?thesis
    by (simp add: Let_def fields_20240331_sgt d)
qed

text \<open>
  The claim as the specification states it fails there: the day 31 does not exist in
  February, and the window does not start on the closest valid day, 2024-02-29, but in
  March.
\<close>

theorem resolver_rollback_counterexample:
  "computeRangeDates sgtOffset ''1M'' (Some 1711857600000) =
     Inr \<lparr>fromDate = ''2024-03-02'', toDate = ''2024-03-31''\<rparr>"
  by (rule window_20240331_sgt)

text \<open>
  C5. The window depends on the host's zone: at 2024-03-31T20:00:00Z it is 1 April in
  Singapore on every host, but a host in UTC goes back from its own 31 March and a host in
  UTC+8 from its own 1 April.
\<close>

theorem resolver_depends_on_host_zone:
  "computeRangeDates 0 ''1M'' (Some 1711915200000) =
     Inr \<lparr>fromDate = ''2024-03-03'', toDate = ''2024-04-01''\<rparr>
   \<and> computeRangeDates sgtOffset ''1M'' (Some 1711915200000) =
     Inr \<lparr>fromDate = ''2024-03-01'', toDate = ''2024-04-01''\<rparr>"
  using window_20240401_utc window_20240401_sgt by simp

subsection \<open>Range tokens\<close>

lemma computeRangeDates_default:
  assumes "toUpperCase rng \<notin> set allowedRanges"
  shows "computeRangeDates tz rng now = computeRangeDates tz ''1M'' now"
proof -
  have "shiftBack tz (toUpperCase rng) now = shiftBack tz ''1M'' now"
    using assms by (simp add: shiftBack_def allowedRanges_def)
  then show ?thesis
    by (simp add: computeRangeDates_def Let_def toUpperCase_tokens split: sum.splits)
qed

lemma GET_rejects_range:
  assumes "q_range q = Some r" and "r \<noteq> []" and "toUpperCase (trim r) \<notin> set allowedRanges"
  shows "GET env q \<in> set [JsonError 400 ''Missing required query param: symbol'',
                          JsonError 400 ''Invalid symbol'', JsonError 400 ''Invalid range'']"
proof -
  have r: "orElse (q_range q) ''1M'' = r" "orElse (q_range q) [] = r"
    using assms by (simp_all add: orElse_def)
  have "''1M'' \<in> set allowedRanges" by (simp add: allowedRanges_def)
  with assms(3) have ne: "toUpperCase (trim r) \<noteq> ''1M''" by metis
  show ?thesis
    using assms(2,3) ne unfolding GET_def Let_def r by simp
qed

lemma window_20240315_1Y:
  "computeRangeDates sgtOffset ''1Y'' (Some 1710460800000) =
     Inr \<lparr>fromDate = ''2023-03-15'', toDate = ''2024-03-15''\<rparr>"
proof -
  have c: "carryDate 2024 (- 10) 15 = (2023, 2, 15)" by (simp add: calendar_defs)
  have p: "isoDate 2023 2 15 = ''2023-03-15''" "isoDate 2024 2 15 = ''2024-03-15''"
    by (simp_all add: print_defs)
  show ?thesis
    unfolding computeRangeDates_months [OF monthRanges_mem(2) model_range(1,2)]
    by (simp add: Let_def fields_20240315_sgt c p)
qed

text \<open>
  C6. A token whose upper-cased form is not one of the six fails closed to the 1M window
  in the resolver, and the route answers 400 to every range parameter that is given, not
  empty, and whose trimmed, upper-cased form is not one of the six.
\<close>

theorem unknown_range_policy:
  "(toUpperCase rng \<notin> set allowedRanges \<longrightarrow>
      computeRangeDates tz rng now = computeRangeDates tz ''1M'' now)
   \<and> (q_range q = Some r \<and> r \<noteq> [] \<and> toUpperCase (trim r) \<notin> set allowedRanges \<longrightarrow>
      GET env q \<in> set [JsonError 400 ''Missing required query param: symbol'',
                        JsonError 400 ''Invalid symbol'', JsonError 400 ''Invalid range''])"
  using computeRangeDates_default GET_rejects_range by blast

theorem unknown_range_policy_witness:
  "toUpperCase ''2w'' \<notin> set allowedRanges
   \<and> computeRangeDates 0 ''2w'' (Some 1710460800000) = computeRangeDates 0 ''1M'' (Some 1710460800000)
   \<and> toUpperCase (trim '' 2w'') \<notin> set allowedRanges
   \<and> GET env0 \<lparr>q_symbol = Some ''jpy'', q_range = Some '' 2w''\<rparr>
       \<in> set [JsonError 400 ''Missing required query param: symbol'',
                JsonError 400 ''Invalid symbol'', JsonError 400 ''Invalid range'']"
proof -
  have h1: "toUpperCase ''2w'' \<notin> set allowedRanges"
    by (simp add: toUpperCase_def toUpperChar_def allowedRanges_def)
  have h2: "toUpperCase (trim '' 2w'') \<notin> set allowedRanges"
    by (simp add: toUpperCase_def toUpperChar_def allowedRanges_def trim_def isWhiteSpace_def)
  from unknown_range_policy [of "''2w''" 0 "Some 1710460800000"
      "\<lparr>q_symbol = Some ''jpy'', q_range = Some '' 2w''\<rparr>" "'' 2w''" env0] h1 h2
  show ?thesis by simp
qed

text \<open>
  The claim as stated fails on a token that differs from one of the six by case only:
  \<open>1y\<close> is not in the set, yet the resolver gives it the 1Y window, not the 1M window, and
  the route accepts it and goes on to the provider.
\<close>

theorem unknown_range_counterexample:
  "''1y'' \<notin> set allowedRanges
   \<and> computeRangeDates sgtOffset ''1y'' (Some 1710460800000) =
       Inr \<lparr>fromDate = ''2023-03-15'', toDate = ''2024-03-15''\<rparr>
   \<and> computeRangeDates sgtOffset ''1M'' (Some 1710460800000) =
       Inr \<lparr>fromDate = ''2024-02-15'', toDate = ''2024-03-15''\<rparr>
   \<and> GET env0 \<lparr>q_symbol = Some ''JPY'', q_range = Some ''1y''\<rparr> = JsonError 500 ''fetch failed''"
proof -
  have u: "toUpperCase ''1y'' = ''1Y''" "toUpperCase ''JPY'' = ''JPY''"
    by (simp_all add: toUpperCase_def toUpperChar_def)
  have t: "trim ''1y'' = ''1y''" "trim ''JPY'' = ''JPY''"
    by (simp_all add: trim_def isWhiteSpace_def)
  have a: "computeRangeDates sgtOffset ''1y'' (Some 1710460800000) =
      computeRangeDates sgtOffset ''1Y'' (Some 1710460800000)"
    by (simp add: computeRangeDates_def u toUpperCase_tokens)
  have g: "GET env0 \<lparr>q_symbol = Some ''JPY'', q_range = Some ''1y''\<rparr> = JsonError 500 ''fetch failed''"
    by (simp add: GET_def Let_def orElse_def u t allowedRanges_def env0_def window_20240315_1Y
        fetchTimeSeries_def errMessage_def)
  show ?thesis
    using a g window_20240315_1Y window_20240315_sgt by (simp add: allowedRanges_def)
qed

subsection \<open>The provider client\<close>

lemma keepPoint_iff: "keepPoint p \<longleftrightarrow> (\<exists>r. point_v p = Fin r \<and> 0 < r)"
  by (cases "point_v p") (simp_all add: keepPoint_def Number_isFinite_def gtZero_def)

lemma set_seriesPoints:
  "set (seriesPoints rt usym entries) = {p \<in> toPoint rt usym ` set entries. keepPoint p}"
  by (auto simp: seriesPoints_def)

lemma fetchTimeSeries_Inr:
  assumes "fetchTimeSeries rt params clock fetched = Inr ts"
  obtains res data where "fetched = Resolved res" "ok res" "json res = Inr data"
    "ts = \<lparr>ts_base = toUpperCase (orElse (ft_base data) (sp_base params)),
           ts_symbol = toUpperCase (sp_symbol params),
           ts_asOf = clock,
           ts_range = sp_range params,
           ts_from = sp_from params,
           ts_to = sp_to params,
           ts_points = seriesPoints rt (toUpperCase (sp_symbol params))
             (case ft_rates data of None \<Rightarrow> [] | Some kvs \<Rightarrow> kvs)\<rparr>"
  using assms
  by (auto simp: fetchTimeSeries_def assertOk_def Let_def
      split: fetched.splits option.splits sum.splits if_splits)

lemma fetchLatestRates_Inr:
  assumes "fetchLatestRates base0 syms clock fetched = Inr r"
  obtains res data where "fetched = Resolved res" "ok res" "json res = Inr data"
    "r = \<lparr>base = toUpperCase (orElse (fl_base data) base0),
          asOf = clock,
          providerDate = fl_date data,
          symbols = normalizeSymbols syms,
          rates = fromEntries (map (\<lambda>(k, x). (toUpperCase k, x))
                    (case fl_rates data of None \<Rightarrow> [] | Some kvs \<Rightarrow> kvs))\<rparr>"
  using assms
  by (auto simp: fetchLatestRates_def assertOk_def
      split: fetched.splits option.splits sum.splits if_splits)

lemma jpy_series:
  "fetchTimeSeries rt jpyParams clock (Resolved (okResponse jpySeries)) =
     Inr \<lparr>ts_base = ''SGD'', ts_symbol = ''JPY'', ts_asOf = clock, ts_range = Some ''1D'',
          ts_from = ''2024-01-01'', ts_to = ''2024-01-02'',
          ts_points = [\<lparr>point_t = ''2024-01-02'', point_v = Fin 114.3\<rparr>]\<rparr>"
  by (simp add: fetchTimeSeries_def assertOk_def okResponse_def jpySeries_def jpyParams_def
      Let_def orElse_def toUpperCase_def toUpperChar_def seriesPoints_def toPoint_def
      keepPoint_def getProp_def Number_isFinite_def gtZero_def)

text \<open>
  C4. Every point of a normalised series has a finite value above zero, the points are
  exactly the candidates that pass the filter, and the raw rates of the specification's
  example give the single point of 2024-01-02.
\<close>

theorem series_points_positive:
  "(fetchTimeSeries rt params clock fetched = Inr ts \<longrightarrow>
      (\<forall>p \<in> set (ts_points ts). \<exists>r. point_v p = Fin r \<and> 0 < r))
   \<and> (fetchTimeSeries rt params clock (Resolved res) = Inr ts \<and> json res = Inr data \<and>
        ft_rates data = Some entries \<longrightarrow>
      set (ts_points ts) =
        {p \<in> toPoint rt (toUpperCase (sp_symbol params)) ` set entries.
           \<exists>r. point_v p = Fin r \<and> 0 < r})
   \<and> fetchTimeSeries rt jpyParams clock (Resolved (okResponse jpySeries)) =
       Inr \<lparr>ts_base = ''SGD'', ts_symbol = ''JPY'', ts_asOf = clock, ts_range = Some ''1D'',
            ts_from = ''2024-01-01'', ts_to = ''2024-01-02'',
            ts_points = [\<lparr>point_t = ''2024-01-02'', point_v = Fin 114.3\<rparr>]\<rparr>"
proof (intro conjI impI)
  assume a: "fetchTimeSeries rt params clock fetched = Inr ts"
  show "\<forall>p \<in> set (ts_points ts). \<exists>r. point_v p = Fin r \<and> 0 < r"
    using a by (elim fetchTimeSeries_Inr) (auto simp: set_seriesPoints keepPoint_iff)
next
  assume a: "fetchTimeSeries rt params clock (Resolved res) = Inr ts \<and> json res = Inr data \<and>
        ft_rates data = Some entries"
  then have "fetchTimeSeries rt params clock (Resolved res) = Inr ts" by simp
  then show "set (ts_points ts) =
        {p \<in> toPoint rt (toUpperCase (sp_symbol params)) ` set entries.
           \<exists>r. point_v p = Fin r \<and> 0 < r}"
    using a by (elim fetchTimeSeries_Inr) (auto simp: set_seriesPoints keepPoint_iff)
next
  show "fetchTimeSeries rt jpyParams clock (Resolved (okResponse jpySeries)) =
       Inr \<lparr>ts_base = ''SGD'', ts_symbol = ''JPY'', ts_asOf = clock, ts_range = Some ''1D'',
            ts_from = ''2024-01-01'', ts_to = ''2024-01-02'',
            ts_points = [\<lparr>point_t = ''2024-01-02'', point_v = Fin 114.3\<rparr>]\<rparr>"
    by (rule jpy_series)
qed


theorem series_points_positive_witness:
  "fetchTimeSeries (runtime env0) jpyParams (stamp env0) (Resolved (okResponse jpySeries)) =
     Inr \<lparr>ts_base = ''SGD'', ts_symbol = ''JPY'', ts_asOf = stamp env0, ts_range = Some ''1D'',
          ts_from = ''2024-01-01'', ts_to = ''2024-01-02'',
          ts_points = [\<lparr>point_t = ''2024-01-02'', point_v = Fin 114.3\<rparr>]\<rparr>
   \<and> json (okResponse jpySeries) = Inr jpySeries
   \<and> ft_rates jpySeries =
       Some [(''2024-01-01'', JObject [(''JPY'', JNumber (Fin 0))]),
             (''2024-01-02'', JObject [(''JPY'', JNumber (Fin 114.3))])]
   \<and> (\<exists>r. point_v \<lparr>point_t = ''2024-01-02'', point_v = Fin 114.3\<rparr> = Fin r \<and> 0 < r)"
proof -
  let ?ts = "\<lparr>ts_base = ''SGD'', ts_symbol = ''JPY'', ts_asOf = stamp env0, ts_range = Some ''1D'',
          ts_from = ''2024-01-01'', ts_to = ''2024-01-02'',
          ts_points = [\<lparr>point_t = ''2024-01-02'', point_v = Fin 114.3\<rparr>]\<rparr>"
  note th = series_points_positive [where rt = "runtime env0" and params = jpyParams
      and clock = "stamp env0" and fetched = "Resolved (okResponse jpySeries)" and ts = ?ts]
  have T: "fetchTimeSeries (runtime env0) jpyParams (stamp env0) (Resolved (okResponse jpySeries)) =
     Inr ?ts"
    using th by blast
  have all: "\<forall>p \<in> set (ts_points ?ts). \<exists>r. point_v p = Fin r \<and> 0 < r"
    using th T by blast
  from all have "\<exists>r. point_v \<lparr>point_t = ''2024-01-02'', point_v = Fin 114.3\<rparr> = Fin r \<and> 0 < r"
    by simp
  with T show ?thesis by (simp add: okResponse_def jpySeries_def)
qed

text \<open>
  C9. The series carries the stamp taken when it is normalised and the window the caller
  asked for: \<open>ts_from\<close> and \<open>ts_to\<close> are the request's dates, whatever start and end date
  the provider reports. The snapshot carries the stamp and the provider's date.
\<close>

theorem stamps_and_dates:
  "(fetchTimeSeries rt params clock fetched = Inr ts \<longrightarrow>
      ts_asOf ts = clock \<and> ts_from ts = sp_from params \<and> ts_to ts = sp_to params)
   \<and> (fetchLatestRates base0 syms clock (Resolved res) = Inr r \<and> json res = Inr data \<longrightarrow>
      asOf r = clock \<and> providerDate r = fl_date data)"
proof -
  have 1: "ts_asOf ts = clock \<and> ts_from ts = sp_from params \<and> ts_to ts = sp_to params"
    if "fetchTimeSeries rt params clock fetched = Inr ts"
    using that by (elim fetchTimeSeries_Inr) simp
  have 2: "asOf r = clock \<and> providerDate r = fl_date data"
    if "fetchLatestRates base0 syms clock (Resolved res) = Inr r" and "json res = Inr data"
    using that by (elim fetchLatestRates_Inr) simp
  from 1 2 show ?thesis by blast
qed

lemma usd_latest:
  "fetchLatestRates ''SGD'' [''usd'', '' xxx '', []] clock (Resolved (okResponse usdLatest)) =
     Inr \<lparr>base = ''SGD'', asOf = clock, providerDate = Some ''2024-03-14'',
          symbols = [''USD'', ''XXX''], rates = [(''USD'', JNumber (Fin 0.75))]\<rparr>"
  by (simp add: fetchLatestRates_def assertOk_def okResponse_def usdLatest_def orElse_def
      normalizeSymbols_def toUpperCase_def toUpperChar_def trim_def isWhiteSpace_def
      fromEntries_def)

theorem stamps_and_dates_witness:
  "fetchTimeSeries (runtime env0) jpyParams (stamp env0) (Resolved (okResponse jpySeries)) =
     Inr \<lparr>ts_base = ''SGD'', ts_symbol = ''JPY'', ts_asOf = stamp env0, ts_range = Some ''1D'',
          ts_from = ''2024-01-01'', ts_to = ''2024-01-02'',
          ts_points = [\<lparr>point_t = ''2024-01-02'', point_v = Fin 114.3\<rparr>]\<rparr>
   \<and> fetchLatestRates ''SGD'' [''usd'', '' xxx '', []] (stamp env0) (Resolved (okResponse usdLatest)) =
     Inr \<lparr>base = ''SGD'', asOf = stamp env0, providerDate = Some ''2024-03-14'',
          symbols = [''USD'', ''XXX''], rates = [(''USD'', JNumber (Fin 0.75))]\<rparr>
   \<and> json (okResponse usdLatest) = Inr usdLatest
   \<and> sp_from jpyParams = ''2024-01-01'' \<and> sp_to jpyParams = ''2024-01-02''
   \<and> fl_date usdLatest = Some ''2024-03-14''"
proof -
  let ?ts = "\<lparr>ts_base = ''SGD'', ts_symbol = ''JPY'', ts_asOf = stamp env0, ts_range = Some ''1D'',
          ts_from = ''2024-01-01'', ts_to = ''2024-01-02'',
          ts_points = [\<lparr>point_t = ''2024-01-02'', point_v = Fin 114.3\<rparr>]\<rparr>"
  let ?r = "\<lparr>base = ''SGD'', asOf = stamp env0, providerDate = Some ''2024-03-14'',
          symbols = [''USD'', ''XXX''], rates = [(''USD'', JNumber (Fin 0.75))]\<rparr>"
  have j: "json (okResponse usdLatest) = Inr usdLatest" by (simp add: okResponse_def)
  from stamps_and_dates [of "runtime env0" jpyParams "stamp env0"
      "Resolved (okResponse jpySeries)" ?ts "''SGD''" "[''usd'', '' xxx '', []]"
      "okResponse usdLatest" ?r usdLatest] jpy_series usd_latest j
  show ?thesis by simp
qed

text \<open>
  The claim as stated fails for the series: the provider reports 2023-12-29 as the
  start date, and the series says 2024-01-01, the date that was requested.
\<close>

theorem series_dates_counterexample:
  "fetchTimeSeries (runtime env0) jpyParams (stamp env0) (Resolved (okResponse jpySeries)) =
     Inr \<lparr>ts_base = ''SGD'', ts_symbol = ''JPY'', ts_asOf = stamp env0, ts_range = Some ''1D'',
          ts_from = ''2024-01-01'', ts_to = ''2024-01-02'',
          ts_points = [\<lparr>point_t = ''2024-01-02'', point_v = Fin 114.3\<rparr>]\<rparr>
   \<and> ft_start_date jpySeries = Some ''2023-12-29''"
  using jpy_series by (simp add: jpySeries_def)

text \<open>
  C10. The symbols of a snapshot are the requested symbols, trimmed, upper-cased, without
  the empty ones and in the order of the request, whatever the provider answers; a symbol
  the provider leaves out is listed all the same and has no rate.
\<close>

theorem latest_symbols_requested:
  "(fetchLatestRates base0 syms clock fetched = Inr r \<longrightarrow>
      symbols r = filter (\<lambda>c. c \<noteq> []) (map (\<lambda>c. toUpperCase (trim c)) syms))
   \<and> (fetchLatestRates base0 syms clock fetched = Inr r \<and>
        fetchLatestRates base0 syms clock' fetched' = Inr r' \<longrightarrow> symbols r = symbols r')
   \<and> fetchLatestRates ''SGD'' [''usd'', '' xxx '', []] clock (Resolved (okResponse usdLatest)) =
       Inr \<lparr>base = ''SGD'', asOf = clock, providerDate = Some ''2024-03-14'',
            symbols = [''USD'', ''XXX''], rates = [(''USD'', JNumber (Fin 0.75))]\<rparr>"
proof (intro conjI impI)
  assume "fetchLatestRates base0 syms clock fetched = Inr r"
  then show "symbols r = filter (\<lambda>c. c \<noteq> []) (map (\<lambda>c. toUpperCase (trim c)) syms)"
    by (elim fetchLatestRates_Inr) (simp add: normalizeSymbols_def)
next
  assume a: "fetchLatestRates base0 syms clock fetched = Inr r \<and>
        fetchLatestRates base0 syms clock' fetched' = Inr r'"
  then have 1: "fetchLatestRates base0 syms clock fetched = Inr r"
    and 2: "fetchLatestRates base0 syms clock' fetched' = Inr r'" by simp_all
  from 1 have "symbols r = normalizeSymbols syms" by (elim fetchLatestRates_Inr) simp
  moreover from 2 have "symbols r' = normalizeSymbols syms" by (elim fetchLatestRates_Inr) simp
  ultimately show "symbols r = symbols r'" by simp
next
  show "fetchLatestRates ''SGD'' [''usd'', '' xxx '', []] clock (Resolved (okResponse usdLatest)) =
       Inr \<lparr>base = ''SGD'', asOf = clock, providerDate = Some ''2024-03-14'',
            symbols = [''USD'', ''XXX''], rates = [(''USD'', JNumber (Fin 0.75))]\<rparr>"
    by (rule usd_latest)
qed

theorem latest_symbols_requested_witness:
  "fetchLatestRates ''SGD'' [''usd'', '' xxx '', []] (stamp env0) (Resolved (okResponse usdLatest)) =
     Inr \<lparr>base = ''SGD'', asOf = stamp env0, providerDate = Some ''2024-03-14'',
          symbols = [''USD'', ''XXX''], rates = [(''USD'', JNumber (Fin 0.75))]\<rparr>
   \<and> [''USD'', ''XXX''] =
       filter (\<lambda>c. c \<noteq> []) (map (\<lambda>c. toUpperCase (trim c)) [''usd'', '' xxx '', []])
   \<and> map_of [(''USD'', JNumber (Fin 0.75))] ''XXX'' = None"
proof -
  let ?r = "\<lparr>base = ''SGD'', asOf = stamp env0, providerDate = Some ''2024-03-14'',
          symbols = [''USD'', ''XXX''], rates = [(''USD'', JNumber (Fin 0.75))]\<rparr>"
  from latest_symbols_requested [where ?base0.0 = "''SGD''" and syms = "[''usd'', '' xxx '', []]"
      and clock = "stamp env0" and fetched = "Resolved (okResponse usdLatest)" and r = ?r]
  show ?thesis by simp
qed

subsection \<open>The dashboard's refresh loop\<close>

lemma tryFetch_fresh:
  "tryFetch (s\<lparr>controllers := cs @ [False], abortRef := r, isLoading := b, errorMessage := m\<rparr>)
     (length cs) fetched = settled fetched"
  by (simp add: tryFetch_def)

lemma refresh_failed:
  assumes sym: "symbolsParam s \<noteq> []"
    and f: "settled fetched = Inl err"
    and na: "\<not> isAbortError err"
  shows "latest (refresh s fetched) = latest s"
    and "errorMessage (refresh s fetched) = Some (errMessage err)"
    and "isLoading (refresh s fetched) = False"
    and "watchlist (refresh s fetched) = watchlist s"
  using assms
  by (simp_all add: refresh_def loadLatest_start_def loadLatest_settle_def Let_def tryFetch_fresh)

lemma badge_degraded:
  "errorMessage s = Some m \<Longrightarrow> m \<noteq> [] \<Longrightarrow> badge s = DEGRADED"
  by (simp add: badge_def truthy_def)

lemma status_loaded:
  "latest s = Some snap \<Longrightarrow> status_of s = loaded"
  by (simp add: status_of_def)

lemma settle_failed:
  assumes c: "\<not> (c < length (controllers s) \<and> controllers s ! c)"
    and f: "settled fetched = Inl err"
    and na: "\<not> isAbortError err"
  shows "latest (loadLatest_settle s c fetched) = latest s"
    and "errorMessage (loadLatest_settle s c fetched) = Some (errMessage err)"
    and "isLoading (loadLatest_settle s c fetched) = False"
proof -
  have t: "tryFetch s c fetched = Inl err"
    using c f by (auto simp: tryFetch_def)
  show "latest (loadLatest_settle s c fetched) = latest s"
    and "errorMessage (loadLatest_settle s c fetched) = Some (errMessage err)"
    and "isLoading (loadLatest_settle s c fetched) = False"
    using na by (simp_all add: loadLatest_settle_def t)
qed

lemma http_failure_has_reason:
  assumes "\<not> ok res"
  shows "\<exists>err. settled (Resolved res) = Inl err \<and> \<not> isAbortError err \<and> errMessage err \<noteq> []"
  using assms by (simp add: settled_def isAbortError_def errMessage_def)

text \<open>
  C1. A fetch that fails while a snapshot is there keeps the snapshot, stores the reason
  of the failure and shows DEGRADED in the header, while the \<open>status\<close> handed to the
  controls stays \<open>loaded\<close>: this holds when the fetch of any controller that has not been
  aborted settles with a failure, and for a refresh that fails and a second one that fails
  right after it, each with its own reason. The reason is the message of the error and is
  taken not to be the empty string.
\<close>

theorem failed_refresh_keeps_snapshot:
  assumes "latest s = Some snap" and "symbolsParam s \<noteq> []"
    and "\<not> (c < length (controllers s) \<and> controllers s ! c)"
    and "settled f1 = Inl e1" and "\<not> isAbortError e1" and "errMessage e1 \<noteq> []"
    and "settled f2 = Inl e2" and "\<not> isAbortError e2" and "errMessage e2 \<noteq> []"
  shows "latest (loadLatest_settle s c f1) = Some snap
     \<and> errorMessage (loadLatest_settle s c f1) = Some (errMessage e1)
     \<and> badge (loadLatest_settle s c f1) = DEGRADED
     \<and> status_of (loadLatest_settle s c f1) = loaded
     \<and> latest (refresh s f1) = Some snap
     \<and> errorMessage (refresh s f1) = Some (errMessage e1)
     \<and> badge (refresh s f1) = DEGRADED
     \<and> status_of (refresh s f1) = loaded
     \<and> latest (refresh (refresh s f1) f2) = Some snap
     \<and> errorMessage (refresh (refresh s f1) f2) = Some (errMessage e2)
     \<and> badge (refresh (refresh s f1) f2) = DEGRADED
     \<and> status_of (refresh (refresh s f1) f2) = loaded"
proof -
  let ?s1 = "refresh s f1"
  note r0 = settle_failed [OF assms(3,4,5)]
  note r1 = refresh_failed [OF assms(2,4,5)]
  have sym1: "symbolsParam ?s1 \<noteq> []" using assms(2) r1(4) by (simp add: symbolsParam_def)
  note r2 = refresh_failed [OF sym1 assms(7,8)]
  show ?thesis
    using r0 r1 r2 assms(1,6,9) by (simp add: badge_degraded status_loaded)
qed

lemma failures:
  "settled badGateway = Inl (Error ''Failed to load latest rates (502): Bad Gateway'')"
  "settled offline = Inl (TypeError ''Failed to fetch'')"
  by (simp_all add: settled_def badGateway_def offline_def orElse_def digits.simps)

theorem failed_refresh_keeps_snapshot_witness:
  "latest synced = Some usdSnapshot \<and> symbolsParam synced \<noteq> []
   \<and> controllers synced = []
   \<and> settled badGateway = Inl (Error ''Failed to load latest rates (502): Bad Gateway'')
   \<and> settled offline = Inl (TypeError ''Failed to fetch'')
   \<and> latest (loadLatest_settle synced 0 badGateway) = Some usdSnapshot
   \<and> badge (loadLatest_settle synced 0 badGateway) = DEGRADED
   \<and> latest (refresh synced badGateway) = Some usdSnapshot
   \<and> errorMessage (refresh synced badGateway) = Some ''Failed to load latest rates (502): Bad Gateway''
   \<and> badge (refresh synced badGateway) = DEGRADED
   \<and> latest (refresh (refresh synced badGateway) offline) = Some usdSnapshot
   \<and> errorMessage (refresh (refresh synced badGateway) offline) = Some ''Failed to fetch''
   \<and> badge (refresh (refresh synced badGateway) offline) = DEGRADED"
proof -
  have h1: "latest synced = Some usdSnapshot" by (simp add: synced_def)
  have h2: "symbolsParam synced \<noteq> []"
    by (simp add: synced_def tracking_def initialDashboard_def symbolsParam_def)
  have h3: "controllers synced = []"
    by (simp add: synced_def tracking_def initialDashboard_def)
  then have h3': "\<not> (0 < length (controllers synced) \<and> controllers synced ! 0)" by simp
  have n: "\<not> isAbortError (Error ''Failed to load latest rates (502): Bad Gateway'')"
    "\<not> isAbortError (TypeError ''Failed to fetch'')"
    by (simp_all add: isAbortError_def)
  have m: "errMessage (Error ''Failed to load latest rates (502): Bad Gateway'') =
      ''Failed to load latest rates (502): Bad Gateway''"
    "errMessage (TypeError ''Failed to fetch'') = ''Failed to fetch''"
    by (simp_all add: errMessage_def)
  have ne: "errMessage (Error ''Failed to load latest rates (502): Bad Gateway'') \<noteq> []"
    "errMessage (TypeError ''Failed to fetch'') \<noteq> []"
    by (simp_all add: m)
  from failed_refresh_keeps_snapshot
      [OF h1 h2 h3' failures(1) n(1) ne(1) failures(2) n(2) ne(2)] h1 h2 h3 failures
  show ?thesis by (simp add: m)
qed

lemma settle_aborted:
  assumes "c < length (controllers s)" and "controllers s ! c"
  shows "loadLatest_settle s c fetched = s\<lparr>isLoading := False\<rparr>"
  using assms
  by (simp add: loadLatest_settle_def tryFetch_def abortError_def isAbortError_def)

text \<open>
  C2. The fetch of controller 0 has been superseded and aborted; the second fetch is in
  flight and the dashboard is loading. When the aborted fetch settles, whatever the
  network did, the snapshot and the error message stay as they are, but the
  \<^verbatim>\<open>finally\<close> clause clears the loading flag, and the status falls from \<open>loading\<close> to
  \<open>idle\<close> while the second fetch is still in flight.
\<close>

theorem aborted_fetch_clears_loading:
  "controllers superseded = [True, False] \<and> abortRef superseded = Some 1
   \<and> isLoading superseded \<and> status_of superseded = loading
   \<and> (\<forall>f. \<not> isLoading (loadLatest_settle superseded 0 f)
          \<and> status_of (loadLatest_settle superseded 0 f) = idle
          \<and> latest (loadLatest_settle superseded 0 f) = latest superseded
          \<and> errorMessage (loadLatest_settle superseded 0 f) = errorMessage superseded)"
proof -
  have s: "superseded =
      \<lparr>watchlist = [''USD''], refreshSeconds = 30, autoRefresh = True, latest = None,
       isLoading = True, errorMessage = None, abortRef = Some 1,
       controllers = [True, False]\<rparr>"
    by (simp add: superseded_def tracking_def initialDashboard_def loadLatest_start_def
        symbolsParam_def abort_def Let_def)
  show ?thesis
    unfolding s
    by (simp add: status_of_def loadLatest_settle_def tryFetch_def abortError_def
        isAbortError_def truthy_def)
qed

subsection \<open>The chart's geometry\<close>

text \<open>
  C7. The horizontal position of index \<open>i\<close> among \<open>n\<close> points is
  \<open>pad + (i / max (n - 1) 1) * innerW\<close>; the divisor is never below 1; a single point lies
  on the left padding edge and, from two points on, the last point lies on the right edge.
  With a width of 640, a padding of 24 and five points, index 4 lies at 616.
\<close>

theorem xFor_mapping:
  "xFor pts width i = pad + (i / max (real (length pts) - 1) 1) * (width - pad * 2)
   \<and> 1 \<le> max (real (length pts) - 1) 1
   \<and> (length pts = 1 \<longrightarrow> xFor pts width 0 = pad)
   \<and> (2 \<le> length pts \<longrightarrow> xFor pts width (real (length pts) - 1) = pad + innerW width)
   \<and> (length pts = 5 \<longrightarrow> xFor pts 640 4 = 616)
   \<and> pad = 24"
  by (auto simp: xFor_def innerW_def pad_def)

theorem xFor_mapping_witness:
  "length fivePoints = 5 \<and> xFor fivePoints 640 4 = 616
   \<and> xFor fivePoints 640 (real (length fivePoints) - 1) = pad + innerW 640
   \<and> length [hd fivePoints] = 1 \<and> xFor [hd fivePoints] 640 0 = pad"
proof -
  have l: "length fivePoints = 5" by (simp add: fivePoints_def)
  from xFor_mapping [of fivePoints 640 4] xFor_mapping [of "[hd fivePoints]" 640 0] l
  show ?thesis by simp
qed

lemma clamp_index:
  fixes z :: int and n :: nat
  assumes "0 < n"
  shows "jsMin (jsMax (Fin (of_int z)) 0) (real n - 1) =
      Fin (of_int (min (max z 0) (int n - 1)))"
proof -
  have "real n - 1 = of_int (int n - 1)" by simp
  then have "min (max (real_of_int z) 0) (real n - 1) = of_int (min (max z 0) (int n - 1))"
    by (simp add: min_def max_def)
  then show ?thesis by (simp add: jsMin_def jsMax_def)
qed

lemma hoverFromEvent_index:
  assumes n: "pts \<noteq> []" and w: "rect_width rect \<noteq> 0"
  shows "\<exists>h. hoverFromEvent pts width height (Some rect) e = Some h
      \<and> idx h = Fin (of_int (resolveIndex_spec (length pts) width
                   ((clientX e - rect_left rect) / rect_width rect * width)))"
proof -
  define v where "v = (clientX e - rect_left rect) / rect_width rect * width"
  define cx where "cx = min (max v pad) (pad + innerW width)"
  define tt where "tt = (if innerW width \<le> 0 then 0 else (cx - pad) / innerW width)"
  define z where "z = \<lfloor>tt * (real (length pts) - 1) + 1 / 2\<rfloor>"
  have vx0: "jsTimes (jsDivide (clientX e - rect_left rect) (rect_width rect)) width = Fin v"
    using w by (simp add: jsTimes_def jsDivide_def v_def)
  have c: "jsMin (jsMax (Fin v) pad) (pad + innerW width) = Fin cx"
    by (simp add: jsMin_def jsMax_def cx_def)
  have t: "xToT pad (pad + innerW width) (Fin cx) = Fin tt"
    by (simp add: xToT_def jsOver_def jsMinus_def jsDivide_def tt_def)
  have r: "Math_round (jsTimes (Fin tt) (real (length pts) - 1)) = Fin (of_int z)"
    by (simp add: Math_round_def jsTimes_def z_def)
  have n0: "0 < length pts" using n by simp
  have "hoverFromEvent pts width height (Some rect) e =
      Some \<lparr>idx = Fin (of_int (min (max z 0) (int (length pts) - 1))), vx = Fin v,
            vy = jsTimes (jsDivide (clientY e - rect_top rect) (rect_height rect)) height,
            px = clientX e - rect_left rect, py = clientY e - rect_top rect\<rparr>"
    using n by (simp add: hoverFromEvent_def Let_def vx0 c t r clamp_index [OF n0])
  moreover have "resolveIndex_spec (length pts) width v = min (max z 0) (int (length pts) - 1)"
    by (simp add: resolveIndex_spec_def Let_def cx_def tt_def z_def)
  ultimately show ?thesis by (simp add: v_def)
qed

text \<open>
  C8. Moving the pointer twice to the same place leaves the chart as the first move left
  it. With at least one point and a mounted element of non-zero width, a move resolves to
  an index that is a whole number between 0 and the last index: the index the
  specification describes (clamp the logical x, invert the horizontal mapping, round,
  clamp).
\<close>

theorem hover_index_in_range:
  "onMove (onMove c e) e = onMove c e
   \<and> (points c \<noteq> [] \<and> svgRect c = Some rect \<and> rect_width rect \<noteq> 0 \<longrightarrow>
        (\<exists>h k. hover (onMove c e) = Some h \<and> idx h = Fin (of_int k)
           \<and> 0 \<le> k \<and> k \<le> int (length (points c)) - 1
           \<and> k = resolveIndex_spec (length (points c)) (dims_w c)
                 ((clientX e - rect_left rect) / rect_width rect * dims_w c)))"
proof -
  have 1: "onMove (onMove c e) e = onMove c e" by (simp add: onMove_def)
  have 2: "\<exists>h k. hover (onMove c e) = Some h \<and> idx h = Fin (of_int k)
           \<and> 0 \<le> k \<and> k \<le> int (length (points c)) - 1
           \<and> k = resolveIndex_spec (length (points c)) (dims_w c)
                 ((clientX e - rect_left rect) / rect_width rect * dims_w c)"
    if "points c \<noteq> []" "svgRect c = Some rect" "rect_width rect \<noteq> 0"
  proof -
    let ?k = "resolveIndex_spec (length (points c)) (dims_w c)
                 ((clientX e - rect_left rect) / rect_width rect * dims_w c)"
    from hoverFromEvent_index [OF that(1,3), of "dims_w c" "dims_h c" e]
    obtain h where h: "hoverFromEvent (points c) (dims_w c) (dims_h c) (Some rect) e = Some h"
      and i: "idx h = Fin (of_int ?k)"
      by blast
    have "0 < length (points c)" using that(1) by simp
    then have "0 \<le> ?k" "?k \<le> int (length (points c)) - 1"
      by (simp_all add: resolveIndex_spec_def Let_def)
    with h i that(2) show ?thesis by (auto simp: onMove_def)
  qed
  from 1 2 show ?thesis by blast
qed

lemma hover_chart5:
  "hoverFromEvent fivePoints 640 220
     (Some \<lparr>rect_left = 10, rect_top = 10, rect_width = 320, rect_height = 110\<rparr>)
     \<lparr>clientX = 100, clientY = 50\<rparr> =
   Some \<lparr>idx = Fin 1, vx = Fin 180, vy = Fin 80, px = 90, py = 40\<rparr>"
  by (simp add: hoverFromEvent_def fivePoints_def Let_def jsTimes_def jsDivide_def jsMin_def
      jsMax_def jsMinus_def jsOver_def xToT_def Math_round_def pad_def innerW_def)

theorem hover_index_in_range_witness:
  "points chart5 \<noteq> []
   \<and> svgRect chart5 = Some \<lparr>rect_left = 10, rect_top = 10, rect_width = 320, rect_height = 110\<rparr>
   \<and> rect_width \<lparr>rect_left = 10, rect_top = 10, rect_width = 320, rect_height = 110\<rparr> \<noteq> 0
   \<and> onMove (onMove chart5 \<lparr>clientX = 100, clientY = 50\<rparr>) \<lparr>clientX = 100, clientY = 50\<rparr>
       = onMove chart5 \<lparr>clientX = 100, clientY = 50\<rparr>
   \<and> (\<exists>h k. hover (onMove chart5 \<lparr>clientX = 100, clientY = 50\<rparr>) = Some h
         \<and> idx h = Fin (of_int k) \<and> 0 \<le> k \<and> k \<le> int (length (points chart5)) - 1)
   \<and> hover (onMove chart5 \<lparr>clientX = 100, clientY = 50\<rparr>) =
       Some \<lparr>idx = Fin 1, vx = Fin 180, vy = Fin 80, px = 90, py = 40\<rparr>"
proof -
  have v: "hover (onMove chart5 \<lparr>clientX = 100, clientY = 50\<rparr>) =
       Some \<lparr>idx = Fin 1, vx = Fin 180, vy = Fin 80, px = 90, py = 40\<rparr>"
    using hover_chart5 by (simp add: onMove_def chart5_def)
  have h1: "points chart5 \<noteq> []" by (simp add: chart5_def fivePoints_def)
  have h2: "svgRect chart5 =
      Some \<lparr>rect_left = 10, rect_top = 10, rect_width = 320, rect_height = 110\<rparr>"
    by (simp add: chart5_def)
  have h3: "rect_width \<lparr>rect_left = 10, rect_top = 10, rect_width = 320, rect_height = 110\<rparr> \<noteq> 0"
    by simp
  from hover_index_in_range [of chart5 "\<lparr>clientX = 100, clientY = 50\<rparr>"
      "\<lparr>rect_left = 10, rect_top = 10, rect_width = 320, rect_height = 110\<rparr>"] h1 h2 h3 v
  show ?thesis by blast
qed

end
